theory Spec2Isabelle
  imports Main "HOL-Library.Word"
begin

section \<open>Strings and paths\<close>

text \<open>
  The script \<open>auto_remove.py\<close> watches a directory and removes a watermark at a fixed
  position from every image created there. Python strings are modelled as \<open>string\<close>
  (a list of bytes, UTF-8 for anything beyond ASCII).

  \<open>str.lower\<close> is modelled on the ASCII letters. The handler only compares the
  lowered name with ASCII suffixes; no character outside \<open>A\<close>..\<open>Z\<close> lowers to one of
  the letters of these suffixes, so the outcome of the comparison is the same.
\<close>

type_synonym u8 = "8 word"
type_synonym path = string

definition lower_char :: "char \<Rightarrow> char" where
  "lower_char c =
     (case map_of (zip ''ABCDEFGHIJKLMNOPQRSTUVWXYZ'' ''abcdefghijklmnopqrstuvwxyz'') c of
        Some l \<Rightarrow> l
      | None \<Rightarrow> c)"

definition lower :: "string \<Rightarrow> string" where
  "lower s = map lower_char s"

definition endswith :: "string \<Rightarrow> string \<Rightarrow> bool" where
  "endswith s suf = (length suf \<le> length s \<and> drop (length s - length suf) s = suf)"

definition startswith :: "string \<Rightarrow> string \<Rightarrow> bool" where
  "startswith s pre = (take (length pre) s = pre)"

text \<open>\<open>os.path\<close> on POSIX: \<open>basename\<close> is the text after the last slash.\<close>

definition basename :: "path \<Rightarrow> string" where
  "basename p = rev (takeWhile (\<lambda>c. c \<noteq> CHR ''/'') (rev p))"

definition os_path_join :: "path \<Rightarrow> path \<Rightarrow> path" where
  "os_path_join a b =
     (if startswith b ''/'' then b
      else if a = [] \<or> endswith a ''/'' then a @ b
      else a @ ''/'' @ b)"

text \<open>
  \<open>os.path.splitext(p)[1]\<close>: the text from the last dot of the last component,
  where the dots the component starts with do not count.
\<close>

definition splitext_ext :: "path \<Rightarrow> string" where
  "splitext_ext p =
     (let rest = dropWhile (\<lambda>c. c = CHR ''.'') (basename p)
      in if CHR ''.'' \<in> set rest
         then CHR ''.'' # rev (takeWhile (\<lambda>c. c \<noteq> CHR ''.'') (rev rest))
         else [])"

text \<open>
  Path resolution: a path names the list of its components. Empty components and
  \<open>.\<close> are dropped, an absolute path starts with the component \<open>/\<close>. Symbolic links and
  \<open>..\<close> are outside the model (\<open>..\<close> is an ordinary name).
\<close>

fun split_sep :: "string \<Rightarrow> string \<Rightarrow> string list" where
  "split_sep acc [] = [rev acc]"
| "split_sep acc (c # cs) =
     (if c = CHR ''/'' then rev acc # split_sep [] cs else split_sep (c # acc) cs)"

definition resolve :: "path \<Rightarrow> string list" where
  "resolve p =
     (if startswith p ''/'' then [''/''] else []) @
     filter (\<lambda>c. c \<noteq> [] \<and> c \<noteq> ''.'') (split_sep [] p)"

definition parent :: "string list \<Rightarrow> string list" where
  "parent cs = butlast cs"

text \<open>The path that a list of components spells.\<close>

fun unsplit :: "string list \<Rightarrow> path" where
  "unsplit [] = []"
| "unsplit [c] = c"
| "unsplit (c # cs) = (if c = ''/'' then c @ unsplit cs else c @ ''/'' @ unsplit cs)"

text \<open>
  The text of an error of the operating system: the message, a colon and the path
  between single quotes, as \<open>str(e)\<close> gives it.
\<close>

definition quoted :: "string \<Rightarrow> string" where
  "quoted s = [CHR 0x27] @ s @ [CHR 0x27]"

definition errno_text :: "string \<Rightarrow> path \<Rightarrow> string" where
  "errno_text msg p = msg @ '': '' @ quoted p"

section \<open>Exceptions, effects and the world\<close>

text \<open>
  The exceptions of the model are subclasses of Python's \<open>Exception\<close>; each carries
  the text that \<open>str(e)\<close> gives.
\<close>

datatype py_exception =
    FileNotFoundError string
  | FileExistsError string
  | IsADirectoryError string
  | NotADirectoryError string
  | UnidentifiedImageError string
  | ValueError string
  | TypeError string
  | OSError string
  | cv2_error string

fun str_exc :: "py_exception \<Rightarrow> string" where
  "str_exc (FileNotFoundError s) = s"
| "str_exc (FileExistsError s) = s"
| "str_exc (IsADirectoryError s) = s"
| "str_exc (NotADirectoryError s) = s"
| "str_exc (UnidentifiedImageError s) = s"
| "str_exc (ValueError s) = s"
| "str_exc (TypeError s) = s"
| "str_exc (OSError s) = s"
| "str_exc (cv2_error s) = s"

text \<open>
  Every effect of the script is logged in order: a line printed, a sleep, an
  existence test, the opening of a file for reading, the opening of a file for
  writing, the creation of a directory.
\<close>

datatype effect =
    Stdout string
  | Slept nat
  | FsExists path
  | FsRead path
  | FsWrite path
  | FsMkdir path

record world =
  files :: "string list \<rightharpoonup> string"
  dirs :: "string list set"
  trace :: "effect list"

definition log :: "effect \<Rightarrow> world \<Rightarrow> world" where
  "log e w = w\<lparr>trace := trace w @ [e]\<rparr>"

definition py_print :: "string \<Rightarrow> world \<Rightarrow> world" where
  "py_print s w = log (Stdout s) w"

definition time_sleep :: "nat \<Rightarrow> world \<Rightarrow> world" where
  "time_sleep n w = log (Slept n) w"

text \<open>The current directory and the root always exist.\<close>

definition is_dir :: "world \<Rightarrow> string list \<Rightarrow> bool" where
  "is_dir w cs = (cs = [] \<or> cs = [''/''] \<or> cs \<in> dirs w)"

definition is_file :: "world \<Rightarrow> string list \<Rightarrow> bool" where
  "is_file w cs = (files w cs \<noteq> None \<and> \<not> is_dir w cs)"

definition os_path_exists :: "path \<Rightarrow> world \<Rightarrow> bool \<times> world" where
  "os_path_exists p w =
     (is_dir w (resolve p) \<or> is_file w (resolve p), log (FsExists p) w)"

text \<open>
  \<open>os.makedirs(p, exist_ok=True)\<close> creates \<open>p\<close> and every missing ancestor. It raises
  \<open>FileExistsError\<close> when \<open>p\<close> is a regular file, and \<open>NotADirectoryError\<close>, naming the
  first path below it, when an ancestor is one.
\<close>

fun prefixes_ne :: "'a list \<Rightarrow> 'a list list" where
  "prefixes_ne [] = []"
| "prefixes_ne (x # xs) = [x] # map ((#) x) (prefixes_ne xs)"

definition os_makedirs :: "path \<Rightarrow> world \<Rightarrow> (py_exception + unit) \<times> world" where
  "os_makedirs p w =
     (let w1 = log (FsMkdir p) w; r = resolve p
      in if p = []
         then (Inl (FileNotFoundError (errno_text ''[Errno 2] No such file or directory'' p)), w1)
         else if is_file w r
         then (Inl (FileExistsError (errno_text ''[Errno 17] File exists'' p)), w1)
         else case find (is_file w) (prefixes_ne r) of
                Some f \<Rightarrow>
                  (Inl (NotADirectoryError
                          (errno_text ''[Errno 20] Not a directory''
                             (unsplit (take (Suc (length f)) r)))), w1)
              | None \<Rightarrow> (Inr (), w1\<lparr>dirs := dirs w \<union> set (prefixes_ne r)\<rparr>))"

section \<open>The imaging libraries\<close>

text \<open>
  Pillow images of the 8-bit modes \<open>L\<close> (grey), \<open>P\<close> (indexed, with its palette),
  \<open>RGB\<close> and \<open>RGBA\<close>. A pixel is addressed as \<open>(x, y)\<close>.
\<close>

type_synonym rgb = "u8 \<times> u8 \<times> u8"

datatype pil_mode = ModeL | ModeP | ModeRGB | ModeRGBA

datatype pil_data =
    DataL "int \<Rightarrow> int \<Rightarrow> u8"
  | DataP "int \<Rightarrow> int \<Rightarrow> u8" "u8 \<Rightarrow> rgb"
  | DataRGB "int \<Rightarrow> int \<Rightarrow> rgb"
  | DataRGBA "int \<Rightarrow> int \<Rightarrow> rgb \<times> u8"

record pil_image =
  im_size :: "int \<times> int"
  im_data :: pil_data

fun data_mode :: "pil_data \<Rightarrow> pil_mode" where
  "data_mode (DataL f) = ModeL"
| "data_mode (DataP f pal) = ModeP"
| "data_mode (DataRGB f) = ModeRGB"
| "data_mode (DataRGBA f) = ModeRGBA"

definition mode :: "pil_image \<Rightarrow> pil_mode" where
  "mode img = data_mode (im_data img)"

text \<open>
  A numpy array holding an image: \<open>depth = None\<close> is a two-dimensional array of shape
  \<open>(rows, cols)\<close>, \<open>depth = Some c\<close> a three-dimensional one of shape \<open>(rows, cols, c)\<close>.
  An element is addressed as \<open>[y, x, c]\<close> (\<open>c = 0\<close> in two dimensions).
\<close>

record img_array =
  rows :: nat
  cols :: nat
  depth :: "nat option"
  elem :: "nat \<Rightarrow> nat \<Rightarrow> nat \<Rightarrow> u8"

definition shape :: "img_array \<Rightarrow> nat list" where
  "shape a = [rows a, cols a] @ (case depth a of None \<Rightarrow> [] | Some c \<Rightarrow> [c])"

datatype resampling = NEAREST | BOX | BILINEAR | HAMMING | BICUBIC | LANCZOS

datatype inpaint_flag = INPAINT_NS | INPAINT_TELEA

datatype color_code = COLOR_RGB2BGR | COLOR_BGR2RGB

datatype threshold_type = THRESH_BINARY | THRESH_BINARY_INV

text \<open>
  What the script takes from its libraries without fixing it: the decoder behind
  \<open>Image.open\<close>, the resampling filters, the grey value of a colour, the palette
  quantiser, the fill computed by \<open>cv2.inpaint\<close>, the table of registered file
  extensions and the encoders behind \<open>Image.save\<close>. They are parameters of the model.
\<close>

record library =
  lib_decode :: "string \<Rightarrow> py_exception + pil_image"
  lib_resample :: "resampling \<Rightarrow> pil_image \<Rightarrow> int \<times> int \<Rightarrow> pil_data"
  lib_luma :: "rgb \<Rightarrow> u8"
  lib_quantize :: "(int \<Rightarrow> int \<Rightarrow> rgb) \<Rightarrow> (int \<Rightarrow> int \<Rightarrow> u8) \<times> (u8 \<Rightarrow> rgb)"
  lib_inpaint_fill :: "inpaint_flag \<Rightarrow> nat \<Rightarrow> img_array \<Rightarrow> img_array \<Rightarrow> nat \<Rightarrow> nat \<Rightarrow> nat \<Rightarrow> u8"
  lib_registered_extension :: "string \<Rightarrow> string option"
  lib_encode :: "string \<Rightarrow> nat \<Rightarrow> pil_image \<Rightarrow> py_exception + string"

subsection \<open>Pillow\<close>

text \<open>\<open>Image.open\<close> together with the decoding that the first use of the pixels does.\<close>

definition Image_open :: "library \<Rightarrow> path \<Rightarrow> world \<Rightarrow> (py_exception + pil_image) \<times> world" where
  "Image_open lib p w =
     (let w1 = log (FsRead p) w; r = resolve p
      in if is_dir w r
         then (Inl (IsADirectoryError (errno_text ''[Errno 21] Is a directory'' p)), w1)
         else case files w r of
                None \<Rightarrow>
                  (Inl (FileNotFoundError (errno_text ''[Errno 2] No such file or directory'' p)),
                   w1)
              | Some bytes \<Rightarrow> (lib_decode lib bytes, w1))"

text \<open>\<open>Image.resize(size, resample)\<close>: an image of exactly the size asked for.\<close>

definition Image_resize :: "library \<Rightarrow> pil_image \<Rightarrow> int \<times> int \<Rightarrow> resampling \<Rightarrow> py_exception + pil_image" where
  "Image_resize lib img sz filt =
     (if fst sz \<le> 0 \<or> snd sz \<le> 0 then Inl (ValueError ''height and width must be > 0'')
      else Inr \<lparr>im_size = sz, im_data = lib_resample lib filt img sz\<rparr>)"

fun rgb_at :: "pil_data \<Rightarrow> int \<Rightarrow> int \<Rightarrow> rgb" where
  "rgb_at (DataL f) x y = (f x y, f x y, f x y)"
| "rgb_at (DataP f pal) x y = pal (f x y)"
| "rgb_at (DataRGB f) x y = f x y"
| "rgb_at (DataRGBA f) x y = fst (f x y)"

fun alpha_at :: "pil_data \<Rightarrow> int \<Rightarrow> int \<Rightarrow> u8" where
  "alpha_at (DataRGBA f) x y = snd (f x y)"
| "alpha_at d x y = 255"

text \<open>
  \<open>Image.convert(mode)\<close>. To \<open>RGB\<close>: a grey value is repeated, an index is looked up
  in the palette, an alpha band is dropped.
\<close>

definition Image_convert :: "library \<Rightarrow> pil_mode \<Rightarrow> pil_image \<Rightarrow> pil_image" where
  "Image_convert lib m img =
     (if mode img = m then img
      else img\<lparr>im_data :=
             (case m of
                ModeL \<Rightarrow> DataL (\<lambda>x y. lib_luma lib (rgb_at (im_data img) x y))
              | ModeRGB \<Rightarrow> DataRGB (rgb_at (im_data img))
              | ModeRGBA \<Rightarrow> DataRGBA (\<lambda>x y. (rgb_at (im_data img) x y, alpha_at (im_data img) x y))
              | ModeP \<Rightarrow> (case lib_quantize lib (rgb_at (im_data img)) of
                           (idx, pal) \<Rightarrow> DataP idx pal))\<rparr>)"

text \<open>\<open>Image.new('L', size, color)\<close>.\<close>

definition Image_new_L :: "int \<times> int \<Rightarrow> u8 \<Rightarrow> pil_image" where
  "Image_new_L sz color = \<lparr>im_size = sz, im_data = DataL (\<lambda>x y. color)\<rparr>"

text \<open>
  \<open>canvas.paste(im, (ox, oy))\<close>: the pixels of \<open>im\<close>, converted to the mode of the
  canvas, replace the pixels of the canvas in the box of the size of \<open>im\<close> whose upper
  left corner is \<open>(ox, oy)\<close>. The model returns the canvas that Python updates in place.
\<close>

definition overlay ::
  "(int \<Rightarrow> int \<Rightarrow> 'a) \<Rightarrow> (int \<Rightarrow> int \<Rightarrow> 'a) \<Rightarrow> int \<times> int \<Rightarrow> int \<times> int \<Rightarrow> int \<Rightarrow> int \<Rightarrow> 'a" where
  "overlay dst src sz box =
     (\<lambda>x y. if fst box \<le> x \<and> x < fst box + fst sz \<and> snd box \<le> y \<and> y < snd box + snd sz
             then src (x - fst box) (y - snd box) else dst x y)"

definition Image_paste :: "library \<Rightarrow> pil_image \<Rightarrow> pil_image \<Rightarrow> int \<times> int \<Rightarrow> pil_image" where
  "Image_paste lib canvas im box =
     canvas\<lparr>im_data :=
       (case (im_data canvas, im_data (Image_convert lib (mode canvas) im)) of
          (DataL d, DataL s) \<Rightarrow> DataL (overlay d s (im_size im) box)
        | (DataP d pal, DataP s pal') \<Rightarrow> DataP (overlay d s (im_size im) box) pal
        | (DataRGB d, DataRGB s) \<Rightarrow> DataRGB (overlay d s (im_size im) box)
        | (DataRGBA d, DataRGBA s) \<Rightarrow> DataRGBA (overlay d s (im_size im) box)
        | (d, s) \<Rightarrow> d)\<rparr>"

text \<open>\<open>Image.fromarray\<close>.\<close>

definition Image_fromarray :: "img_array \<Rightarrow> py_exception + pil_image" where
  "Image_fromarray a =
     (let sz = (int (cols a), int (rows a))
      in case depth a of
           None \<Rightarrow> Inr \<lparr>im_size = sz, im_data = DataL (\<lambda>x y. elem a (nat y) (nat x) 0)\<rparr>
         | Some c \<Rightarrow>
             if c = 1 then Inr \<lparr>im_size = sz, im_data = DataL (\<lambda>x y. elem a (nat y) (nat x) 0)\<rparr>
             else if c = 3 then
               Inr \<lparr>im_size = sz,
                    im_data = DataRGB (\<lambda>x y. (elem a (nat y) (nat x) 0, elem a (nat y) (nat x) 1,
                                               elem a (nat y) (nat x) 2))\<rparr>
             else if c = 4 then
               Inr \<lparr>im_size = sz,
                    im_data = DataRGBA (\<lambda>x y. ((elem a (nat y) (nat x) 0, elem a (nat y) (nat x) 1,
                                                 elem a (nat y) (nat x) 2), elem a (nat y) (nat x) 3))\<rparr>
             else Inl (TypeError ''Cannot handle this data type''))"

text \<open>
  \<open>Image.save(path, quality=q)\<close>: the format comes from the extension of the path;
  the file is opened for writing, which needs its directory; the encoded bytes
  replace what the file held. When the encoder fails, a file that was there is left
  empty and a file that was not is removed again.
\<close>

definition Image_save :: "library \<Rightarrow> pil_image \<Rightarrow> path \<Rightarrow> nat \<Rightarrow> world \<Rightarrow> (py_exception + unit) \<times> world" where
  "Image_save lib img p quality w =
     (case lib_registered_extension lib (lower (splitext_ext p)) of
        None \<Rightarrow> (Inl (ValueError (''unknown file extension: '' @ lower (splitext_ext p))), w)
      | Some fmt \<Rightarrow>
          (let w1 = log (FsWrite p) w; r = resolve p
           in if is_dir w r
              then (Inl (IsADirectoryError (errno_text ''[Errno 21] Is a directory'' p)), w1)
              else if \<not> is_dir w (parent r)
              then (Inl (FileNotFoundError (errno_text ''[Errno 2] No such file or directory'' p)),
                    w1)
              else case lib_encode lib fmt quality img of
                     Inl e \<Rightarrow>
                       (Inl e, w1\<lparr>files := (case files w r of None \<Rightarrow> files w
                                             | Some old \<Rightarrow> (files w)(r \<mapsto> []))\<rparr>)
                   | Inr bytes \<Rightarrow> (Inr (), w1\<lparr>files := (files w)(r \<mapsto> bytes)\<rparr>)))"

subsection \<open>numpy and OpenCV\<close>

text \<open>\<open>np.array(img)\<close> of a Pillow image.\<close>

definition np_array :: "pil_image \<Rightarrow> img_array" where
  "np_array img =
     \<lparr>rows = nat (snd (im_size img)), cols = nat (fst (im_size img)),
      depth = (case im_data img of DataL f \<Rightarrow> None | DataP f pal \<Rightarrow> None
               | DataRGB f \<Rightarrow> Some 3 | DataRGBA f \<Rightarrow> Some 4),
      elem = (\<lambda>y x c.
        case im_data img of
          DataL f \<Rightarrow> f (int x) (int y)
        | DataP f pal \<Rightarrow> f (int x) (int y)
        | DataRGB f \<Rightarrow> (case f (int x) (int y) of
                          (r, g, b) \<Rightarrow> if c = 0 then r else if c = 1 then g else b)
        | DataRGBA f \<Rightarrow> (case f (int x) (int y) of
                           ((r, g, b), a) \<Rightarrow>
                             if c = 0 then r else if c = 1 then g else if c = 2 then b else a))\<rparr>"

text \<open>\<open>np.ones((r, c), np.uint8)\<close>.\<close>

definition np_ones :: "nat \<Rightarrow> nat \<Rightarrow> img_array" where
  "np_ones r c = \<lparr>rows = r, cols = c, depth = None, elem = (\<lambda>y x k. 1)\<rparr>"

text \<open>
  \<open>cv2.cvtColor\<close> with \<open>COLOR_RGB2BGR\<close> or \<open>COLOR_BGR2RGB\<close>: three or four channels in,
  three out, the first and the third exchanged.
\<close>

definition cv2_cvtColor :: "img_array \<Rightarrow> color_code \<Rightarrow> py_exception + img_array" where
  "cv2_cvtColor src code =
     (if depth src = Some 3 \<or> depth src = Some 4
      then Inr (src\<lparr>depth := Some 3, elem := (\<lambda>y x c. elem src y x (2 - c))\<rparr>)
      else Inl (cv2_error ''Invalid number of channels in input image''))"

text \<open>\<open>cv2.threshold(src, thresh, maxval, type)\<close> returns the threshold and the result.\<close>

definition cv2_threshold :: "img_array \<Rightarrow> u8 \<Rightarrow> u8 \<Rightarrow> threshold_type \<Rightarrow> u8 \<times> img_array" where
  "cv2_threshold src thresh maxval ty =
     (thresh,
      src\<lparr>elem := (\<lambda>y x c.
        case ty of
          THRESH_BINARY \<Rightarrow> (if thresh < elem src y x c then maxval else 0)
        | THRESH_BINARY_INV \<Rightarrow> (if thresh < elem src y x c then 0 else maxval))\<rparr>)"

text \<open>
  \<open>cv2.dilate(src, kernel, iterations=n)\<close>: every element becomes the maximum of the
  elements under the nonzero entries of the kernel, anchored at its centre; what lies
  outside the image does not count. The step is repeated \<open>n\<close> times.
\<close>

definition kernel_hits :: "img_array \<Rightarrow> (nat \<times> nat) list" where
  "kernel_hits k =
     concat (map (\<lambda>i. map (\<lambda>j. (i, j)) (filter (\<lambda>j. elem k i j 0 \<noteq> 0) [0..<cols k]))
                 [0..<rows k])"

definition dilate_step :: "img_array \<Rightarrow> img_array \<Rightarrow> img_array" where
  "dilate_step k src =
     src\<lparr>elem := (\<lambda>y x c.
       foldr max
         (map (\<lambda>(i, j). elem src (y + i - rows k div 2) (x + j - cols k div 2) c)
            (filter (\<lambda>(i, j). rows k div 2 \<le> y + i \<and> y + i - rows k div 2 < rows src \<and>
                               cols k div 2 \<le> x + j \<and> x + j - cols k div 2 < cols src)
               (kernel_hits k)))
         0)\<rparr>"

definition cv2_dilate :: "img_array \<Rightarrow> img_array \<Rightarrow> nat \<Rightarrow> img_array" where
  "cv2_dilate src k n = (dilate_step k ^^ n) src"

text \<open>
  \<open>cv2.inpaint(src, mask, radius, flags)\<close> takes an image of one or three channels and
  a mask of one channel and of the same size, and returns an image shaped as \<open>src\<close>.
\<close>

definition cv2_inpaint ::
  "library \<Rightarrow> img_array \<Rightarrow> img_array \<Rightarrow> nat \<Rightarrow> inpaint_flag \<Rightarrow> py_exception + img_array" where
  "cv2_inpaint lib src inpaintMask radius flag =
     (if (depth src = None \<or> depth src = Some 1 \<or> depth src = Some 3) \<and>
         (depth inpaintMask = None \<or> depth inpaintMask = Some 1) \<and>
         rows inpaintMask = rows src \<and> cols inpaintMask = cols src
      then Inr (src\<lparr>elem := lib_inpaint_fill lib flag radius src inpaintMask\<rparr>)
      else Inl (cv2_error ''inpaint: bad image or mask''))"

section \<open>The script\<close>

text \<open>
  The settings of a run: the three keys of \<open>config.json\<close> and the directory of the
  script. They are read once, before anything else.
\<close>

record settings =
  INPUT_DIR :: path
  OUTPUT_DIR :: path
  MASK_FILENAME :: path
  SCRIPT_DIR :: path

definition TARGET_WIDTH :: int where "TARGET_WIDTH = 1280"
definition TARGET_HEIGHT :: int where "TARGET_HEIGHT = 720"
definition MASK_SIZE :: int where "MASK_SIZE = 45"
definition PADDING_RIGHT :: int where "PADDING_RIGHT = 30"
definition PADDING_BOTTOM :: int where "PADDING_BOTTOM = 30"

definition MASK_PATH :: "settings \<Rightarrow> path" where
  "MASK_PATH S = os_path_join (SCRIPT_DIR S) (MASK_FILENAME S)"

text \<open>The two \<open>os.makedirs\<close> calls that the module runs when it is loaded.\<close>

definition module_init :: "settings \<Rightarrow> world \<Rightarrow> (py_exception + unit) \<times> world" where
  "module_init S w =
     (case os_makedirs (INPUT_DIR S) w of
        (Inl e, w1) \<Rightarrow> (Inl e, w1)
      | (Inr u, w1) \<Rightarrow> os_makedirs (OUTPUT_DIR S) w1)"

subsection \<open>The lines printed\<close>

text \<open>The check mark of the last line, in UTF-8.\<close>

definition check_mark :: string where
  "check_mark = [CHR 0xE2, CHR 0x9C, CHR 0x93]"

definition loading_line :: "path \<Rightarrow> string" where
  "loading_line input_path = ''[Processing] Loading and resizing '' @ input_path @ ''...''"

definition error_reading_line :: "py_exception \<Rightarrow> string" where
  "error_reading_line e = ''Error reading image: '' @ str_exc e"

definition critical_line :: "path \<Rightarrow> string" where
  "critical_line mask_path = ''CRITICAL ERROR: Mask file not found at '' @ mask_path"

definition saving_line :: "path \<Rightarrow> string" where
  "saving_line output_path = ''Saving result to '' @ output_path @ ''...''"

definition done_line :: "path \<Rightarrow> string" where
  "done_line output_path = check_mark @ '' DONE: '' @ basename output_path"

definition detected_line :: "string \<Rightarrow> string" where
  "detected_line filename =
     [CHR 0x0A] @ ''--- New Image Detected: '' @ filename @ '' ---''"

definition failed_line :: "string \<Rightarrow> py_exception \<Rightarrow> string" where
  "failed_line filename e = ''Failed to process '' @ filename @ '': '' @ str_exc e"

subsection \<open>\<open>resize_image\<close>\<close>

text \<open>The body of the \<open>try\<close> block.\<close>

definition resize_image_body :: "library \<Rightarrow> path \<Rightarrow> world \<Rightarrow> (py_exception + img_array) \<times> world" where
  "resize_image_body lib input_path w =
     (case Image_open lib input_path w of
        (Inl e, w1) \<Rightarrow> (Inl e, w1)
      | (Inr img, w1) \<Rightarrow>
          (case Image_resize lib img (TARGET_WIDTH, TARGET_HEIGHT) LANCZOS of
             Inl e \<Rightarrow> (Inl e, w1)
           | Inr resized_img \<Rightarrow>
               (let resized_rgb = (if mode resized_img \<noteq> ModeRGB
                                   then Image_convert lib ModeRGB resized_img else resized_img)
                in (cv2_cvtColor (np_array resized_rgb) COLOR_RGB2BGR, w1))))"

definition resize_image :: "library \<Rightarrow> path \<Rightarrow> world \<Rightarrow> img_array option \<times> world" where
  "resize_image lib input_path w =
     (case resize_image_body lib input_path (py_print (loading_line input_path) w) of
        (Inr img_cv, w1) \<Rightarrow> (Some img_cv, w1)
      | (Inl e, w1) \<Rightarrow> (None, py_print (error_reading_line e) w1))"

subsection \<open>\<open>create_mask\<close>\<close>

definition create_mask :: "library \<Rightarrow> path \<Rightarrow> world \<Rightarrow> (py_exception + img_array) \<times> world" where
  "create_mask lib mask_path w =
     (case Image_open lib mask_path w of
        (Inl e, w1) \<Rightarrow> (Inl e, w1)
      | (Inr mask_img, w1) \<Rightarrow>
          (case Image_resize lib mask_img (MASK_SIZE, MASK_SIZE) LANCZOS of
             Inl e \<Rightarrow> (Inl e, w1)
           | Inr resized \<Rightarrow>
               (let mask_resized = (if mode resized \<noteq> ModeL
                                    then Image_convert lib ModeL resized else resized);
                    offset_x = TARGET_WIDTH - MASK_SIZE - PADDING_RIGHT;
                    offset_y = TARGET_HEIGHT - MASK_SIZE - PADDING_BOTTOM;
                    mask_canvas = Image_new_L (TARGET_WIDTH, TARGET_HEIGHT) 0;
                    mask_pasted = Image_paste lib mask_canvas mask_resized (offset_x, offset_y);
                    mask_cv = np_array mask_pasted;
                    mask_binary = snd (cv2_threshold mask_cv 127 255 THRESH_BINARY)
                in (Inr mask_binary, w1))))"

subsection \<open>\<open>inpaint_image\<close>\<close>

definition inpaint_image :: "library \<Rightarrow> img_array \<Rightarrow> img_array \<Rightarrow> py_exception + img_array" where
  "inpaint_image lib img_cv mask_binary =
     (let kernel = np_ones 3 3;
          mask_dilated = cv2_dilate mask_binary kernel 2
      in cv2_inpaint lib img_cv mask_dilated 15 INPAINT_NS)"

subsection \<open>\<open>process_file_logic\<close>\<close>

definition process_file_logic ::
  "settings \<Rightarrow> library \<Rightarrow> path \<Rightarrow> path \<Rightarrow> world \<Rightarrow> (py_exception + unit) \<times> world" where
  "process_file_logic S lib input_path output_path w =
     (case os_path_exists (MASK_PATH S) w of
        (False, w1) \<Rightarrow>
          (Inr (), py_print (critical_line (MASK_PATH S)) w1)
      | (True, w1) \<Rightarrow>
     (case resize_image lib input_path w1 of
        (None, w2) \<Rightarrow> (Inr (), w2)
      | (Some img_cv, w2) \<Rightarrow>
     (case create_mask lib (MASK_PATH S) w2 of
        (Inl e, w3) \<Rightarrow> (Inl e, w3)
      | (Inr mask_binary, w3) \<Rightarrow>
     (case inpaint_image lib img_cv mask_binary of
        Inl e \<Rightarrow> (Inl e, w3)
      | Inr result_cv \<Rightarrow>
     (let w4 = py_print (saving_line output_path) w3 in
     (case cv2_cvtColor result_cv COLOR_BGR2RGB of
        Inl e \<Rightarrow> (Inl e, w4)
      | Inr result_rgb \<Rightarrow>
     (case Image_fromarray result_rgb of
        Inl e \<Rightarrow> (Inl e, w4)
      | Inr result_img \<Rightarrow>
     (case Image_save lib result_img output_path 95 w4 of
        (Inl e, w5) \<Rightarrow> (Inl e, w5)
      | (Inr u, w5) \<Rightarrow>
          (Inr (), py_print (done_line output_path) w5)))))))))"

subsection \<open>\<open>WatermarkHandler.on_created\<close>\<close>

record fs_event =
  is_directory :: bool
  src_path :: path

definition image_suffixes :: "string list" where
  "image_suffixes = [''.png'', ''.jpg'', ''.jpeg'', ''.bmp'', ''.tiff'']"

definition has_image_suffix :: "string \<Rightarrow> bool" where
  "has_image_suffix filename = list_ex (endswith (lower filename)) image_suffixes"

text \<open>
  The handler. Its result is \<open>Inl e\<close> when the exception \<open>e\<close> leaves it, which would end
  the thread that dispatches the events.
\<close>

definition on_created ::
  "settings \<Rightarrow> library \<Rightarrow> fs_event \<Rightarrow> world \<Rightarrow> (py_exception + unit) \<times> world" where
  "on_created S lib event w =
     (if is_directory event then (Inr (), w)
      else
        (let filename = basename (src_path event)
         in if \<not> has_image_suffix filename then (Inr (), w)
            else
              (let w1 = time_sleep 1 w;
                   w2 = py_print (detected_line filename) w1;
                   output_path = os_path_join (OUTPUT_DIR S) filename
               in case process_file_logic S lib (src_path event) output_path w2 of
                    (Inr u, w3) \<Rightarrow> (Inr (), w3)
                  | (Inl e, w3) \<Rightarrow>
                      (Inr (), py_print (failed_line filename e) w3))))"

subsection \<open>The main program\<close>

text \<open>
  What happens around the script while it runs: a file is created in the watched
  directory and the observer calls the handler, or something else writes or removes a
  file or removes a directory.
\<close>

datatype step =
    Created fs_event
  | ExtWrite path string
  | ExtRemove path
  | ExtRmdir path

datatype outcome = Exited nat | Crashed py_exception

fun run_watcher :: "settings \<Rightarrow> library \<Rightarrow> step list \<Rightarrow> world \<Rightarrow> (py_exception + unit) \<times> world" where
  "run_watcher S lib [] w = (Inr (), w)"
| "run_watcher S lib (Created ev # rest) w =
     (case on_created S lib ev w of
        (Inl e, w1) \<Rightarrow> (Inl e, w1)
      | (Inr u, w1) \<Rightarrow> run_watcher S lib rest w1)"
| "run_watcher S lib (ExtWrite p bytes # rest) w =
     run_watcher S lib rest (w\<lparr>files := (files w)(resolve p \<mapsto> bytes)\<rparr>)"
| "run_watcher S lib (ExtRemove p # rest) w =
     run_watcher S lib rest (w\<lparr>files := (files w)(resolve p := None)\<rparr>)"
| "run_watcher S lib (ExtRmdir p # rest) w =
     run_watcher S lib rest (w\<lparr>dirs := dirs w - {resolve p}\<rparr>)"

text \<open>
  The block under \<open>__main__\<close>: the steps are what happens until the interrupt from the
  keyboard, after which the observer is stopped and the program ends.
\<close>

definition not_found_line :: "settings \<Rightarrow> string" where
  "not_found_line S =
     ''Error: '' @ [CHR 0x27] @ MASK_FILENAME S @ [CHR 0x27] @ '' not found in '' @ SCRIPT_DIR S"

definition place_mask_line :: string where
  "place_mask_line = ''Please place your mask file in the same folder as this script.''"

definition banner :: "settings \<Rightarrow> string list" where
  "banner S =
     [''Started Watching: '' @ INPUT_DIR S,
      ''Saving To:      '' @ OUTPUT_DIR S,
      ''Using Mask:     '' @ MASK_PATH S,
      ''Press Ctrl+C to stop.'']"

definition main :: "settings \<Rightarrow> library \<Rightarrow> step list \<Rightarrow> world \<Rightarrow> outcome \<times> world" where
  "main S lib steps w =
     (case os_path_exists (MASK_PATH S) w of
        (False, w1) \<Rightarrow>
          (Exited 1, py_print place_mask_line (py_print (not_found_line S) w1))
      | (True, w1) \<Rightarrow>
          (Exited 0, snd (run_watcher S lib steps (fold py_print (banner S) w1))))"

definition program :: "settings \<Rightarrow> library \<Rightarrow> step list \<Rightarrow> world \<Rightarrow> outcome \<times> world" where
  "program S lib steps w =
     (case module_init S w of
        (Inl e, w1) \<Rightarrow> (Crashed e, w1)
      | (Inr u, w1) \<Rightarrow> main S lib steps w1)"

section \<open>Notions of the specification\<close>

text \<open>
  The extension of a file name is the text after its last dot; a name without a dot
  has none. The specification lists the extensions the handler accepts.
\<close>

definition extension_of :: "string \<Rightarrow> string option" where
  "extension_of filename =
     (if CHR ''.'' \<in> set filename
      then Some (rev (takeWhile (\<lambda>c. c \<noteq> CHR ''.'') (rev filename))) else None)"

definition allowed_extensions :: "string list" where
  "allowed_extensions = [''png'', ''jpg'', ''jpeg'', ''bmp'', ''tiff'']"

definition extension_allowed :: "string \<Rightarrow> bool" where
  "extension_allowed filename =
     (case extension_of filename of None \<Rightarrow> False | Some e \<Rightarrow> lower e \<in> set allowed_extensions)"

text \<open>The grey value of a pixel: the value itself in mode \<open>L\<close>, the converted colour otherwise.\<close>

definition grey_of :: "library \<Rightarrow> pil_data \<Rightarrow> int \<Rightarrow> int \<Rightarrow> u8" where
  "grey_of lib d x y = (case d of DataL f \<Rightarrow> f x y | _ \<Rightarrow> lib_luma lib (rgb_at d x y))"

text \<open>The rectangle of the watermark in the canonical image.\<close>

definition in_mask_box :: "nat \<Rightarrow> nat \<Rightarrow> bool" where
  "in_mask_box x y = (1205 \<le> x \<and> x < 1250 \<and> 645 \<le> y \<and> y < 690)"

text \<open>The nonzero region of a mask, as a set of positions \<open>(y, x)\<close>.\<close>

definition nonzero :: "img_array \<Rightarrow> (nat \<times> nat) set" where
  "nonzero a = {(y, x). y < rows a \<and> x < cols a \<and> elem a y x 0 \<noteq> 0}"

text \<open>Two coordinates at most \<open>d\<close> apart.\<close>

definition near :: "nat \<Rightarrow> nat \<Rightarrow> nat \<Rightarrow> bool" where
  "near d a b = (a \<le> b + d \<and> b \<le> a + d)"

text \<open>The effects that a call has added to the log.\<close>

definition new_effects :: "world \<Rightarrow> world \<Rightarrow> effect list" where
  "new_effects w w' = drop (length (trace w)) (trace w')"

text \<open>A run of the pipeline reports its success by the line that ends it.\<close>

definition is_done :: "effect \<Rightarrow> bool" where
  "is_done e = (case e of Stdout s \<Rightarrow> startswith s (check_mark @ '' DONE: '') | _ \<Rightarrow> False)"

text \<open>The path at which the handler saves the result of an event.\<close>

definition output_path_of :: "settings \<Rightarrow> fs_event \<Rightarrow> path" where
  "output_path_of S ev = os_path_join (OUTPUT_DIR S) (basename (src_path ev))"

text \<open>What the handler does for an accepted file up to the read of the input.\<close>

definition prelude :: "settings \<Rightarrow> fs_event \<Rightarrow> effect list" where
  "prelude S ev =
     [Slept 1, Stdout (detected_line (basename (src_path ev))), FsExists (MASK_PATH S),
      Stdout (loading_line (src_path ev)), FsRead (src_path ev)]"

text \<open>The world after the existence test and the two reads of a run.\<close>

definition after_reads :: "settings \<Rightarrow> path \<Rightarrow> world \<Rightarrow> world" where
  "after_reads S inp w =
     log (FsRead (MASK_PATH S))
       (log (FsRead inp) (py_print (loading_line inp) (log (FsExists (MASK_PATH S)) w)))"

section \<open>An example\<close>

text \<open>
  A small installation on which the theorems are tried: a white mask asset, a photo
  with an alpha band, a library that resamples by the nearest pixel, takes the green
  band as grey value, blanks the masked pixels and encodes a picture as the name of
  its format. Its decoder knows the two images and takes every other file for a
  truncated one.
\<close>

definition example_settings :: settings where
  "example_settings =
     \<lparr>INPUT_DIR = ''in'', OUTPUT_DIR = ''out'', MASK_FILENAME = ''mask.png'', SCRIPT_DIR = ''/app''\<rparr>"

definition white_square :: pil_image where
  "white_square = \<lparr>im_size = (64, 64), im_data = DataL (\<lambda>x y. 255)\<rparr>"

definition example_photo :: pil_image where
  "example_photo = \<lparr>im_size = (640, 480), im_data = DataRGBA (\<lambda>x y. ((10, 20, 30), 40))\<rparr>"

definition nearest :: "pil_image \<Rightarrow> int \<times> int \<Rightarrow> pil_data" where
  "nearest img sz =
     (let sx = (\<lambda>x. x * fst (im_size img) div fst sz);
          sy = (\<lambda>y. y * snd (im_size img) div snd sz)
      in case im_data img of
           DataL f \<Rightarrow> DataL (\<lambda>x y. f (sx x) (sy y))
         | DataP f pal \<Rightarrow> DataP (\<lambda>x y. f (sx x) (sy y)) pal
         | DataRGB f \<Rightarrow> DataRGB (\<lambda>x y. f (sx x) (sy y))
         | DataRGBA f \<Rightarrow> DataRGBA (\<lambda>x y. f (sx x) (sy y)))"

definition example_library :: library where
  "example_library =
     \<lparr>lib_decode = (\<lambda>bytes. if bytes = ''mask'' then Inr white_square
                            else if bytes = ''photo'' then Inr example_photo
                            else Inl (OSError ''image file is truncated (0 bytes not processed)'')),
      lib_resample = (\<lambda>filt img sz. nearest img sz),
      lib_luma = (\<lambda>(r, g, b). g),
      lib_quantize = (\<lambda>f. (\<lambda>x y. 0, \<lambda>i. f 0 0)),
      lib_inpaint_fill = (\<lambda>flag radius src m y x c. if elem m y x 0 = 0 then elem src y x c else 0),
      lib_registered_extension =
        map_of [(''.png'', ''PNG''), (''.jpg'', ''JPEG''), (''.jpeg'', ''JPEG''),
                (''.bmp'', ''BMP''), (''.tiff'', ''TIFF'')],
      lib_encode = (\<lambda>fmt quality img. Inr fmt)\<rparr>"

definition example_world :: world where
  "example_world =
     \<lparr>files = map_of [([''/'', ''app'', ''mask.png''], ''mask''), ([''in'', ''photo.jpg''], ''photo'')],
      dirs = {[''/'', ''app''], [''in''], [''out'']},
      trace = []\<rparr>"

text \<open>The same world after the output directory has been removed.\<close>

definition world_without_out :: world where
  "world_without_out = example_world\<lparr>dirs := {[''/'', ''app''], [''in'']}\<rparr>"

text \<open>The same world after the mask asset has been removed.\<close>

definition world_without_mask :: world where
  "world_without_mask = example_world\<lparr>files := map_of [([''in'', ''photo.jpg''], ''photo'')]\<rparr>"

text \<open>The same world with a mask asset that does not decode.\<close>

definition world_with_bad_mask :: world where
  "world_with_bad_mask =
     example_world\<lparr>files := map_of [([''/'', ''app'', ''mask.png''], ''garbage''),
                                     ([''in'', ''photo.jpg''], ''photo'')]\<rparr>"

text \<open>The same world with a photo that does not decode.\<close>

definition world_with_bad_photo :: world where
  "world_with_bad_photo =
     example_world\<lparr>files := map_of [([''/'', ''app'', ''mask.png''], ''mask''),
                                     ([''in'', ''photo.jpg''], ''garbage'')]\<rparr>"

definition example_event :: fs_event where
  "example_event = \<lparr>is_directory = False, src_path = ''in/photo.jpg''\<rparr>"

definition text_event :: fs_event where
  "text_event = \<lparr>is_directory = False, src_path = ''in/notes.txt''\<rparr>"

definition black_mask :: img_array where
  "black_mask = \<lparr>rows = 720, cols = 1280, depth = None, elem = (\<lambda>y x c. 0)\<rparr>"

definition dot_mask :: img_array where
  "dot_mask = \<lparr>rows = 720, cols = 1280, depth = None,
                elem = (\<lambda>y x c. if y = 650 \<and> x = 1210 then 255 else 0)\<rparr>"

section \<open>Names and suffixes\<close>

lemma lower_char_dot: "lower_char c = CHR ''.'' \<longleftrightarrow> c = CHR ''.''"
  by (simp add: lower_char_def)

lemma lower_char_dot': "lower_char c \<noteq> CHR ''.'' \<longleftrightarrow> c \<noteq> CHR ''.''"
  by (simp add: lower_char_dot)

lemma endswith_iff: "endswith s suf \<longleftrightarrow> (\<exists>pre. s = pre @ suf)"
  unfolding endswith_def
  by (metis append_eq_conv_conj append_take_drop_id diff_add_inverse2 length_append le_add2 length_drop)

lemma lower_char_dot_sym: "CHR ''.'' = lower_char c \<longleftrightarrow> c = CHR ''.''"
  using lower_char_dot [of c] by auto

lemma set_lower_dot: "CHR ''.'' \<in> set (lower s) \<longleftrightarrow> CHR ''.'' \<in> set s"
  by (induction s) (auto simp: lower_def lower_char_dot lower_char_dot_sym)

lemma takeWhile_upto_dot:
  "CHR ''.'' \<notin> set xs \<Longrightarrow> takeWhile (\<lambda>c. c \<noteq> CHR ''.'') (xs @ CHR ''.'' # ys) = xs"
  by (induction xs) auto

lemma last_dot_iff:
  assumes "CHR ''.'' \<notin> set e"
  shows "(\<exists>pre. s = pre @ CHR ''.'' # e) \<longleftrightarrow>
         (CHR ''.'' \<in> set s \<and> rev (takeWhile (\<lambda>c. c \<noteq> CHR ''.'') (rev s)) = e)"
proof
  assume "\<exists>pre. s = pre @ CHR ''.'' # e"
  then obtain pre where s: "s = pre @ CHR ''.'' # e" by blast
  have "takeWhile (\<lambda>c. c \<noteq> CHR ''.'') (rev e @ CHR ''.'' # rev pre) = rev e"
    using assms by (simp add: takeWhile_upto_dot)
  then show "CHR ''.'' \<in> set s \<and> rev (takeWhile (\<lambda>c. c \<noteq> CHR ''.'') (rev s)) = e"
    by (simp add: s)
next
  assume h: "CHR ''.'' \<in> set s \<and> rev (takeWhile (\<lambda>c. c \<noteq> CHR ''.'') (rev s)) = e"
  let ?P = "\<lambda>c. c \<noteq> CHR ''.''"
  have ne: "dropWhile ?P (rev s) \<noteq> []" using h by (simp add: dropWhile_eq_Nil_conv)
  then have "hd (dropWhile ?P (rev s)) = CHR ''.''"
    using hd_dropWhile [of ?P "rev s"] by simp
  then obtain t where d: "dropWhile ?P (rev s) = CHR ''.'' # t"
    using ne by (cases "dropWhile ?P (rev s)") auto
  have "rev s = takeWhile ?P (rev s) @ dropWhile ?P (rev s)" by simp
  then have "rev s = rev e @ CHR ''.'' # t" using h d by (metis rev_rev_ident)
  then have "s = rev t @ CHR ''.'' # e" by (metis rev.simps(2) rev_append rev_rev_ident append.assoc append_Cons append_Nil)
  then show "\<exists>pre. s = pre @ CHR ''.'' # e" by blast
qed

lemma takeWhile_lower:
  "takeWhile (\<lambda>c. c \<noteq> CHR ''.'') (rev (lower s)) = lower (takeWhile (\<lambda>c. c \<noteq> CHR ''.'') (rev s))"
  by (simp add: lower_def rev_map takeWhile_map comp_def lower_char_dot)

lemma suffix_iff_ext:
  assumes "CHR ''.'' \<notin> set e"
  shows "endswith (lower f) (CHR ''.'' # e) \<longleftrightarrow> (\<exists>x. extension_of f = Some x \<and> lower x = e)"
  unfolding endswith_iff last_dot_iff [OF assms] set_lower_dot takeWhile_lower extension_of_def
  by (auto simp: lower_def rev_map)

lemma has_image_suffix_iff: "has_image_suffix f \<longleftrightarrow> extension_allowed f"
  unfolding has_image_suffix_def image_suffixes_def extension_allowed_def allowed_extensions_def
  by (auto simp: suffix_iff_ext split: option.splits)

section \<open>The mask\<close>

lemma Image_open_trace: "Image_open lib p w = (r, w1) \<Longrightarrow> w1 = log (FsRead p) w"
  by (auto simp: Image_open_def Let_def split: if_splits option.splits)

lemma to_L_data:
  "im_data (if mode r \<noteq> ModeL then Image_convert lib ModeL r else r) = DataL (grey_of lib (im_data r))"
  by (cases "im_data r") (auto simp: mode_def Image_convert_def grey_of_def intro!: ext)

lemma to_L_size:
  "im_size (if mode r \<noteq> ModeL then Image_convert lib ModeL r else r) = im_size r"
  by (simp add: Image_convert_def)

lemma to_L_mode:
  "mode (if mode r \<noteq> ModeL then Image_convert lib ModeL r else r) = ModeL"
  using to_L_data [of r lib] unfolding mode_def [of "if _ then _ else _"] by simp

lemma paste_L:
  assumes "im_data im = DataL s"
  shows "Image_paste lib (Image_new_L sz c) im box =
         \<lparr>im_size = sz, im_data = DataL (overlay (\<lambda>x y. c) s (im_size im) box)\<rparr>"
  using assms by (simp add: Image_paste_def Image_new_L_def Image_convert_def mode_def)

lemma create_mask_value:
  assumes "Image_open lib mask_path w = (Inr mask_img, w1)"
  shows "create_mask lib mask_path w =
     (Inr \<lparr>rows = 720, cols = 1280, depth = None,
           elem = (\<lambda>y x c. if 127 < overlay (\<lambda>x y. 0)
                                      (grey_of lib (lib_resample lib LANCZOS mask_img (45, 45)))
                                      (45, 45) (1205, 645) (int x) (int y)
                            then 255 else 0)\<rparr>, w1)"
proof -
  define r where "r = \<lparr>im_size = (45, 45), im_data = lib_resample lib LANCZOS mask_img (45, 45)\<rparr>"
  define mr where "mr = (if mode r \<noteq> ModeL then Image_convert lib ModeL r else r)"
  have d: "im_data mr = DataL (grey_of lib (lib_resample lib LANCZOS mask_img (45, 45)))"
    unfolding mr_def to_L_data by (simp add: r_def)
  have sz: "im_size mr = (45, 45)"
    unfolding mr_def to_L_size by (simp add: r_def)
  have "create_mask lib mask_path w =
        (Inr (snd (cv2_threshold (np_array (Image_paste lib (Image_new_L (1280, 720) 0) mr (1205, 645)))
                     127 255 THRESH_BINARY)), w1)"
    unfolding create_mask_def mr_def r_def
    by (simp add: assms Image_resize_def MASK_SIZE_def TARGET_WIDTH_def TARGET_HEIGHT_def
        PADDING_RIGHT_def PADDING_BOTTOM_def Let_def split del: if_split)
  then show ?thesis
    by (simp add: paste_L [OF d] sz np_array_def cv2_threshold_def)
qed

text \<open>
  Claim C1. When the mask asset is a file that decodes to an image, \<open>create_mask\<close>
  returns a two-dimensional array of 720 rows and 1280 columns. Every element is 0 or
  255, every nonzero element lies in the rectangle 1205 \<le> x < 1250, 645 \<le> y < 690, and
  inside the rectangle the element at \<open>(x, y)\<close> is 255 exactly when the grey value of the
  asset resized to 45 by 45 exceeds 127 at \<open>(x - 1205, y - 645)\<close>.
\<close>

theorem create_mask_binary_in_box:
  assumes "files w (resolve mask_path) = Some bytes"
    and "\<not> is_dir w (resolve mask_path)"
    and "lib_decode lib bytes = Inr mask_img"
  shows "\<exists>m. create_mask lib mask_path w = (Inr m, log (FsRead mask_path) w) \<and>
             shape m = [720, 1280] \<and>
             (\<forall>y x c. elem m y x c = 0 \<or> elem m y x c = 255) \<and>
             (\<forall>y x c. elem m y x c \<noteq> 0 \<longrightarrow> in_mask_box x y) \<and>
             (\<forall>y x c. in_mask_box x y \<longrightarrow>
                elem m y x c =
                  (if 127 < grey_of lib (lib_resample lib LANCZOS mask_img (45, 45))
                              (int x - 1205) (int y - 645)
                   then 255 else 0))"
proof -
  have op: "Image_open lib mask_path w = (Inr mask_img, log (FsRead mask_path) w)"
    using assms by (simp add: Image_open_def Let_def)
  show ?thesis
    unfolding create_mask_value [OF op]
    by (auto simp: shape_def overlay_def in_mask_box_def)
qed

section \<open>The resized image\<close>

lemma to_RGB_data:
  "im_data (if mode r \<noteq> ModeRGB then Image_convert lib ModeRGB r else r) = DataRGB (rgb_at (im_data r))"
  by (cases "im_data r") (auto simp: mode_def Image_convert_def intro!: ext)

lemma to_RGB_size:
  "im_size (if mode r \<noteq> ModeRGB then Image_convert lib ModeRGB r else r) = im_size r"
  by (simp add: Image_convert_def)

lemma resize_image_body_value:
  assumes "Image_open lib input_path w = (Inr img, w1)"
  shows "resize_image_body lib input_path w =
     (Inr \<lparr>rows = 720, cols = 1280, depth = Some 3,
           elem = (\<lambda>y x c. case rgb_at (lib_resample lib LANCZOS img (1280, 720)) (int x) (int y) of
                              (r, g, b) \<Rightarrow> if 2 - c = 0 then r else if 2 - c = 1 then g else b)\<rparr>, w1)"
proof -
  define r where "r = \<lparr>im_size = (1280, 720), im_data = lib_resample lib LANCZOS img (1280, 720)\<rparr>"
  define rr where "rr = (if mode r \<noteq> ModeRGB then Image_convert lib ModeRGB r else r)"
  have d: "im_data rr = DataRGB (rgb_at (lib_resample lib LANCZOS img (1280, 720)))"
    unfolding rr_def to_RGB_data by (simp add: r_def)
  have sz: "im_size rr = (1280, 720)"
    unfolding rr_def to_RGB_size by (simp add: r_def)
  have "resize_image_body lib input_path w = (cv2_cvtColor (np_array rr) COLOR_RGB2BGR, w1)"
    unfolding resize_image_body_def rr_def r_def
    by (simp add: assms Image_resize_def TARGET_WIDTH_def TARGET_HEIGHT_def Let_def split del: if_split)
  then show ?thesis
    by (simp add: d sz np_array_def cv2_cvtColor_def)
qed

text \<open>
  Claim C2. When the input is a file that decodes to an image, of whatever size and
  mode, \<open>resize_image\<close> returns an array of shape \<open>(720, 1280, 3)\<close>. Its three channels
  are the colour of the resized image in the order blue, green, red; the alpha band of
  an image with one is dropped.
\<close>

theorem resize_image_canonical:
  assumes "files w (resolve input_path) = Some bytes"
    and "\<not> is_dir w (resolve input_path)"
    and "lib_decode lib bytes = Inr img"
  shows "\<exists>a. resize_image lib input_path w =
               (Some a, log (FsRead input_path)
                  (py_print (loading_line input_path) w)) \<and>
             shape a = [720, 1280, 3] \<and>
             (\<forall>y x. (elem a y x 2, elem a y x 1, elem a y x 0) =
                     rgb_at (lib_resample lib LANCZOS img (1280, 720)) (int x) (int y)) \<and>
             (\<forall>f y x. lib_resample lib LANCZOS img (1280, 720) = DataRGBA f \<longrightarrow>
                     (elem a y x 2, elem a y x 1, elem a y x 0) = fst (f (int x) (int y)))"
proof -
  let ?w = "py_print (loading_line input_path) w"
  have op: "Image_open lib input_path ?w = (Inr img, log (FsRead input_path) ?w)"
    using assms by (simp add: Image_open_def Let_def py_print_def log_def is_dir_def)
  show ?thesis
    unfolding resize_image_def resize_image_body_value [OF op]
    by (auto simp: shape_def split: prod.splits)
qed

section \<open>Dilation\<close>

lemma max_u8_zero: "max a b = (0::u8) \<longleftrightarrow> a = 0 \<and> b = 0"
  by (auto simp: max_def)

lemma foldr_max_nonzero: "foldr max xs (0::u8) \<noteq> 0 \<longleftrightarrow> (\<exists>v\<in>set xs. v \<noteq> 0)"
  by (induction xs) (auto simp: max_u8_zero)

lemma set_kernel_hits_ones: "set (kernel_hits (np_ones r c)) = {(i, j). i < r \<and> j < c}"
  by (auto simp: kernel_hits_def np_ones_def)

lemma dilate_step_rows [simp]: "rows (dilate_step k src) = rows src"
  and dilate_step_cols [simp]: "cols (dilate_step k src) = cols src"
  and dilate_step_depth [simp]: "depth (dilate_step k src) = depth src"
  by (simp_all add: dilate_step_def)

lemma dilate_step_nonzero:
  "elem (dilate_step k src) y x c \<noteq> 0 \<longleftrightarrow>
     (\<exists>(i, j) \<in> set (kernel_hits k).
        rows k div 2 \<le> y + i \<and> y + i - rows k div 2 < rows src \<and>
        cols k div 2 \<le> x + j \<and> x + j - cols k div 2 < cols src \<and>
        elem src (y + i - rows k div 2) (x + j - cols k div 2) c \<noteq> 0)"
  unfolding dilate_step_def by (auto simp: foldr_max_nonzero)

lemma near1_iff: "near 1 y y' \<longleftrightarrow> (\<exists>i<3. 1 \<le> y + i \<and> y + i - 1 = y')"
proof
  assume "near 1 y y'"
  then have "y' + 1 - y < 3 \<and> 1 \<le> y + (y' + 1 - y) \<and> y + (y' + 1 - y) - 1 = y'"
    by (auto simp: near_def)
  then show "\<exists>i<3. 1 \<le> y + i \<and> y + i - 1 = y'" by blast
next
  assume "\<exists>i<3. 1 \<le> y + i \<and> y + i - 1 = y'"
  then show "near 1 y y'" by (auto simp: near_def)
qed

lemma dilate_step_ones_nonzero:
  "elem (dilate_step (np_ones 3 3) src) y x c \<noteq> 0 \<longleftrightarrow>
     (\<exists>y' x'. y' < rows src \<and> x' < cols src \<and> near 1 y y' \<and> near 1 x x' \<and> elem src y' x' c \<noteq> 0)"
proof -
  have k: "rows (np_ones 3 3) div 2 = 1" "cols (np_ones 3 3) div 2 = 1"
    by (simp_all add: np_ones_def)
  show ?thesis
    unfolding dilate_step_nonzero set_kernel_hits_ones k near1_iff
    by (simp; blast)
qed

lemma near_mid:
  assumes "near 2 y y2" "y < n" "y2 < n"
  shows "\<exists>y1<n. near 1 y y1 \<and> near 1 y1 y2"
proof -
  have "(y + y2) div 2 < n \<and> near 1 y ((y + y2) div 2) \<and> near 1 ((y + y2) div 2) y2"
    using assms by (auto simp: near_def)
  then show ?thesis by blast
qed

lemma near_trans: "near 1 a b \<Longrightarrow> near 1 b c \<Longrightarrow> near 2 a c"
  by (auto simp: near_def)

lemma cv2_dilate_2: "cv2_dilate src k 2 = dilate_step k (dilate_step k src)"
  by (simp add: cv2_dilate_def numeral_2_eq_2)

lemma dilate_twice_nonzero:
  assumes "y < rows src" "x < cols src"
  shows "elem (cv2_dilate src (np_ones 3 3) 2) y x c \<noteq> 0 \<longleftrightarrow>
     (\<exists>y' x'. y' < rows src \<and> x' < cols src \<and> near 2 y y' \<and> near 2 x x' \<and> elem src y' x' c \<noteq> 0)"
  (is "?L \<longleftrightarrow> ?R")
proof
  assume ?L
  then obtain y1 x1 y2 x2 where
    "near 1 y y1" "near 1 x x1" "y2 < rows src" "x2 < cols src" "near 1 y1 y2" "near 1 x1 x2"
    "elem src y2 x2 c \<noteq> 0"
    unfolding cv2_dilate_2 dilate_step_ones_nonzero by auto
  then show ?R using near_trans by blast
next
  assume ?R
  then obtain y2 x2 where h: "y2 < rows src" "x2 < cols src" "near 2 y y2" "near 2 x x2"
    "elem src y2 x2 c \<noteq> 0" by blast
  obtain y1 where y1: "y1 < rows src" "near 1 y y1" "near 1 y1 y2"
    using near_mid [OF h(3) assms(1) h(1)] by blast
  obtain x1 where x1: "x1 < cols src" "near 1 x x1" "near 1 x1 x2"
    using near_mid [OF h(4) assms(2) h(2)] by blast
  have "elem (dilate_step (np_ones 3 3) src) y1 x1 c \<noteq> 0"
    unfolding dilate_step_ones_nonzero using h y1 x1 by blast
  then show ?L
    unfolding cv2_dilate_2 dilate_step_ones_nonzero [of "dilate_step _ _"]
    using y1 x1 by auto
qed

lemma near_refl: "near d a a" by (simp add: near_def)

lemma nonzero_dilate_superset: "nonzero m \<subseteq> nonzero (cv2_dilate m (np_ones 3 3) 2)"
proof
  fix p assume "p \<in> nonzero m"
  then obtain y x where p: "p = (y, x)" "y < rows m" "x < cols m" "elem m y x 0 \<noteq> 0"
    by (auto simp: nonzero_def)
  have "elem (cv2_dilate m (np_ones 3 3) 2) y x 0 \<noteq> 0"
    unfolding dilate_twice_nonzero [OF p(2,3)] using p near_refl by blast
  then show "p \<in> nonzero (cv2_dilate m (np_ones 3 3) 2)"
    using p by (simp add: nonzero_def cv2_dilate_2)
qed

text \<open>Along a line from a true point to a false one, two neighbours differ.\<close>

lemma flip_up: "f a \<Longrightarrow> \<not> f (a + n) \<Longrightarrow> \<exists>i. a \<le> i \<and> i < a + n \<and> f i \<and> \<not> f (Suc i)"
proof (induction n)
  case 0 then show ?case by simp
next
  case (Suc n)
  show ?case
  proof (cases "f (a + n)")
    case True
    then show ?thesis using Suc.prems by (intro exI [of _ "a + n"]) auto
  next
    case False
    then obtain i where "a \<le> i \<and> i < a + n \<and> f i \<and> \<not> f (Suc i)" using Suc by blast
    then show ?thesis by (intro exI [of _ i]) auto
  qed
qed

lemma flip_between:
  assumes "f (a::nat)" "\<not> f b"
  shows "\<exists>i j. f i \<and> \<not> f j \<and> near 1 j i \<and> min a b \<le> i \<and> i \<le> max a b \<and> min a b \<le> j \<and> j \<le> max a b"
proof (cases "a \<le> b")
  case True
  then obtain i where "a \<le> i \<and> i < a + (b - a) \<and> f i \<and> \<not> f (Suc i)"
    using flip_up [of f a "b - a"] assms by auto
  then show ?thesis by (intro exI [of _ i] exI [of _ "Suc i"]) (auto simp: near_def)
next
  case False
  then obtain i where "b \<le> i \<and> i < b + (a - b) \<and> \<not> f i \<and> \<not> \<not> f (Suc i)"
    using flip_up [of "\<lambda>k. \<not> f k" b "a - b"] assms by auto
  then show ?thesis by (intro exI [of _ "Suc i"] exI [of _ i]) (auto simp: near_def)
qed

lemma zero_next_to_nonzero:
  assumes p: "y0 < rows m" "x0 < cols m" "elem m y0 x0 0 \<noteq> 0"
    and q: "y1 < rows m" "x1 < cols m" "elem m y1 x1 0 = 0"
  shows "\<exists>y x y' x'. y < rows m \<and> x < cols m \<and> elem m y x 0 = 0 \<and>
           y' < rows m \<and> x' < cols m \<and> elem m y' x' 0 \<noteq> 0 \<and> near 1 y y' \<and> near 1 x x'"
proof (cases "elem m y0 x1 0 = 0")
  case True
  obtain i j where "elem m y0 i 0 \<noteq> 0 \<and> \<not> elem m y0 j 0 \<noteq> 0 \<and> near 1 j i \<and>
      min x0 x1 \<le> i \<and> i \<le> max x0 x1 \<and> min x0 x1 \<le> j \<and> j \<le> max x0 x1"
    using flip_between [of "\<lambda>x. elem m y0 x 0 \<noteq> 0" x0 x1] p True by blast
  then show ?thesis
    using p q by (intro exI [of _ y0] exI [of _ j] exI [of _ i]) (auto simp: near_refl)
next
  case False
  obtain i j where "elem m i x1 0 \<noteq> 0 \<and> \<not> elem m j x1 0 \<noteq> 0 \<and> near 1 j i \<and>
      min y0 y1 \<le> i \<and> i \<le> max y0 y1 \<and> min y0 y1 \<le> j \<and> j \<le> max y0 y1"
    using flip_between [of "\<lambda>y. elem m y x1 0 \<noteq> 0" y0 y1] q False by blast
  then show ?thesis
    using p q by (intro exI [of _ j] exI [of _ x1] exI [of _ i]) (auto simp: near_refl)
qed

lemma near_1_2: "near 1 a b \<Longrightarrow> near 2 a b" by (simp add: near_def)

lemma nonzero_dilate_strict:
  assumes "nonzero m \<noteq> {}" and "\<exists>y<rows m. \<exists>x<cols m. elem m y x 0 = 0"
  shows "nonzero m \<subset> nonzero (cv2_dilate m (np_ones 3 3) 2)"
proof -
  obtain y0 x0 where p: "y0 < rows m" "x0 < cols m" "elem m y0 x0 0 \<noteq> 0"
    using assms(1) by (auto simp: nonzero_def)
  obtain y1 x1 where q: "y1 < rows m" "x1 < cols m" "elem m y1 x1 0 = 0"
    using assms(2) by blast
  obtain y x y' x' where n: "y < rows m" "x < cols m" "elem m y x 0 = 0"
    "y' < rows m" "x' < cols m" "elem m y' x' 0 \<noteq> 0" "near 1 y y'" "near 1 x x'"
    using zero_next_to_nonzero [OF p q] by blast
  have "elem (cv2_dilate m (np_ones 3 3) 2) y x 0 \<noteq> 0"
    unfolding dilate_twice_nonzero [OF n(1,2)] using n near_1_2 by blast
  then have "(y, x) \<in> nonzero (cv2_dilate m (np_ones 3 3) 2)"
    using n by (simp add: nonzero_def cv2_dilate_2)
  moreover have "(y, x) \<notin> nonzero m" using n by (simp add: nonzero_def)
  ultimately show ?thesis using nonzero_dilate_superset [of m] by blast
qed

section \<open>Effects of the operations\<close>

lemma log_simps [simp]:
  "files (log e w) = files w" "dirs (log e w) = dirs w" "trace (log e w) = trace w @ [e]"
  by (simp_all add: log_def)

lemma py_print_simps [simp]:
  "files (py_print s w) = files w" "dirs (py_print s w) = dirs w"
  "trace (py_print s w) = trace w @ [Stdout s]"
  by (simp_all add: py_print_def)

lemma time_sleep_simps [simp]:
  "files (time_sleep n w) = files w" "dirs (time_sleep n w) = dirs w"
  "trace (time_sleep n w) = trace w @ [Slept n]"
  by (simp_all add: time_sleep_def)

lemma is_dir_cong: "dirs w' = dirs w \<Longrightarrow> is_dir w' = is_dir w"
  by (auto simp: is_dir_def fun_eq_iff)

lemma is_file_cong: "dirs w' = dirs w \<Longrightarrow> files w' = files w \<Longrightarrow> is_file w' = is_file w"
  by (auto simp: is_file_def is_dir_def fun_eq_iff)

lemma os_path_exists_snd [simp]: "snd (os_path_exists p w) = log (FsExists p) w"
  by (simp add: os_path_exists_def)

lemma Image_open_snd [simp]: "snd (Image_open lib p w) = log (FsRead p) w"
  by (simp add: Image_open_def Let_def split: option.splits)

lemma create_mask_snd [simp]: "snd (create_mask lib p w) = log (FsRead p) w"
proof (cases "Image_open lib p w")
  case (Pair r w1)
  then have "w1 = log (FsRead p) w" using Image_open_snd [of lib p w] by simp
  with Pair show ?thesis
    by (cases r) (simp_all add: create_mask_def Let_def split: sum.splits)
qed

lemma resize_image_body_snd [simp]: "snd (resize_image_body lib p w) = log (FsRead p) w"
proof (cases "Image_open lib p w")
  case (Pair r w1)
  then have "w1 = log (FsRead p) w" using Image_open_snd [of lib p w] by simp
  with Pair show ?thesis
    by (cases r) (simp_all add: resize_image_body_def Let_def split: sum.splits)
qed

lemma resize_image_body_world:
  "resize_image_body lib p w = (r, w') \<Longrightarrow> w' = log (FsRead p) w"
  using resize_image_body_snd [of lib p w] by (simp del: resize_image_body_snd)

lemma create_mask_world:
  "create_mask lib p w = (r, w') \<Longrightarrow> w' = log (FsRead p) w"
  using create_mask_snd [of lib p w] by (simp del: create_mask_snd)

lemma resize_image_Some:
  "resize_image lib p w = (Some a, w') \<Longrightarrow> w' = log (FsRead p) (py_print (loading_line p) w)"
  by (auto simp: resize_image_def split: prod.splits sum.splits dest: resize_image_body_world)

lemma resize_image_None:
  "resize_image lib p w = (None, w') \<Longrightarrow>
   \<exists>e. w' = py_print (error_reading_line e) (log (FsRead p) (py_print (loading_line p) w))"
  by (auto simp: resize_image_def split: prod.splits sum.splits dest: resize_image_body_world)

lemma Image_save_Inr:
  "Image_save lib img p q w = (Inr u, w') \<Longrightarrow>
   \<exists>fmt bytes. lib_registered_extension lib (lower (splitext_ext p)) = Some fmt \<and>
      lib_encode lib fmt q img = Inr bytes \<and> is_dir w (parent (resolve p)) \<and> \<not> is_dir w (resolve p) \<and>
      w' = (log (FsWrite p) w)\<lparr>files := (files w)(resolve p \<mapsto> bytes)\<rparr>"
  by (auto simp: Image_save_def Let_def split: option.splits if_splits sum.splits)

lemma Image_save_Inl:
  "Image_save lib img p q w = (Inl e, w') \<Longrightarrow>
   dirs w' = dirs w \<and> (trace w' = trace w \<or> trace w' = trace w @ [FsWrite p]) \<and>
   (\<not> is_dir w (parent (resolve p)) \<longrightarrow> files w' = files w)"
  by (auto simp: Image_save_def Let_def split: option.splits if_splits sum.splits)

lemma Image_save_dirs [simp]: "dirs (snd (Image_save lib img p q w)) = dirs w"
  by (auto simp: Image_save_def Let_def split: option.splits if_splits sum.splits)

section \<open>The runs of the pipeline\<close>

lemma process_file_logic_cases:
  assumes "process_file_logic S lib inp out w = (r, w')"
  obtains
    (missing) "\<not> fst (os_path_exists (MASK_PATH S) w)" "r = Inr ()"
      "w' = py_print (critical_line (MASK_PATH S)) (log (FsExists (MASK_PATH S)) w)"
  | (unreadable) e where "fst (os_path_exists (MASK_PATH S) w)"
      "fst (resize_image lib inp (log (FsExists (MASK_PATH S)) w)) = None" "r = Inr ()"
      "w' = py_print (error_reading_line e)
              (log (FsRead inp) (py_print (loading_line inp) (log (FsExists (MASK_PATH S)) w)))"
  | (mask_error) e img where "fst (os_path_exists (MASK_PATH S) w)"
      "fst (resize_image lib inp (log (FsExists (MASK_PATH S)) w)) = Some img"
      "fst (create_mask lib (MASK_PATH S) (log (FsRead inp) (py_print (loading_line inp) (log (FsExists (MASK_PATH S)) w)))) = Inl e"
      "r = Inl e" "w' = after_reads S inp w"
  | (inpaint_error) e img m where "fst (os_path_exists (MASK_PATH S) w)"
      "fst (resize_image lib inp (log (FsExists (MASK_PATH S)) w)) = Some img"
      "fst (create_mask lib (MASK_PATH S) (log (FsRead inp) (py_print (loading_line inp) (log (FsExists (MASK_PATH S)) w)))) = Inr m"
      "inpaint_image lib img m = Inl e"
      "r = Inl e" "w' = after_reads S inp w"
  | (convert_error) e img m res where "fst (os_path_exists (MASK_PATH S) w)"
      "fst (resize_image lib inp (log (FsExists (MASK_PATH S)) w)) = Some img"
      "fst (create_mask lib (MASK_PATH S) (log (FsRead inp) (py_print (loading_line inp) (log (FsExists (MASK_PATH S)) w)))) = Inr m"
      "inpaint_image lib img m = Inr res"
      "cv2_cvtColor res COLOR_BGR2RGB = Inl e \<or>
       (\<exists>rgb. cv2_cvtColor res COLOR_BGR2RGB = Inr rgb \<and> Image_fromarray rgb = Inl e)"
      "r = Inl e" "w' = py_print (saving_line out) (after_reads S inp w)"
  | (save_error) e img m res rgb pic where "fst (os_path_exists (MASK_PATH S) w)"
      "fst (resize_image lib inp (log (FsExists (MASK_PATH S)) w)) = Some img"
      "fst (create_mask lib (MASK_PATH S) (log (FsRead inp) (py_print (loading_line inp) (log (FsExists (MASK_PATH S)) w)))) = Inr m"
      "inpaint_image lib img m = Inr res"
      "cv2_cvtColor res COLOR_BGR2RGB = Inr rgb" "Image_fromarray rgb = Inr pic"
      "Image_save lib pic out 95 (py_print (saving_line out) (after_reads S inp w)) = (Inl e, w')"
      "r = Inl e"
  | (saved) img m res rgb pic fmt bytes where "fst (os_path_exists (MASK_PATH S) w)"
      "fst (resize_image lib inp (log (FsExists (MASK_PATH S)) w)) = Some img"
      "fst (create_mask lib (MASK_PATH S) (log (FsRead inp) (py_print (loading_line inp) (log (FsExists (MASK_PATH S)) w)))) = Inr m"
      "inpaint_image lib img m = Inr res"
      "cv2_cvtColor res COLOR_BGR2RGB = Inr rgb" "Image_fromarray rgb = Inr pic"
      "lib_registered_extension lib (lower (splitext_ext out)) = Some fmt"
      "lib_encode lib fmt 95 pic = Inr bytes"
      "is_dir w (parent (resolve out))" "\<not> is_dir w (resolve out)"
      "r = Inr ()"
      "w' = py_print (done_line out)
              ((log (FsWrite out) (py_print (saving_line out) (after_reads S inp w)))
                 \<lparr>files := (files w)(resolve out \<mapsto> bytes)\<rparr>)"
proof (cases "fst (os_path_exists (MASK_PATH S) w)")
  case False
  then have "os_path_exists (MASK_PATH S) w = (False, log (FsExists (MASK_PATH S)) w)"
    by (simp add: prod_eq_iff)
  then have "process_file_logic S lib inp out w =
             (Inr (), py_print (critical_line (MASK_PATH S)) (log (FsExists (MASK_PATH S)) w))"
    by (simp add: process_file_logic_def)
  with assms have "r = Inr ()"
    "w' = py_print (critical_line (MASK_PATH S)) (log (FsExists (MASK_PATH S)) w)" by simp_all
  with False show ?thesis by (rule missing)
next
  case ex: True
  let ?w1 = "log (FsExists (MASK_PATH S)) w"
  have ex': "os_path_exists (MASK_PATH S) w = (True, ?w1)"
    using ex by (simp add: prod_eq_iff)
  obtain ri w2 where ri: "resize_image lib inp ?w1 = (ri, w2)" by (cases "resize_image lib inp ?w1")
  show ?thesis
  proof (cases ri)
    case None
    then obtain e where w2: "w2 = py_print (error_reading_line e) (log (FsRead inp) (py_print (loading_line inp) ?w1))"
      using resize_image_None ri by blast
    have "process_file_logic S lib inp out w = (Inr (), w2)"
      using ri None by (simp add: process_file_logic_def ex')
    with assms have "r = Inr ()" "w' = w2" by simp_all
    moreover have "fst (resize_image lib inp ?w1) = None" using ri None by simp
    ultimately show ?thesis using ex w2 by (intro unreadable [of e]) simp_all
  next
    case (Some img)
    then have w2: "w2 = log (FsRead inp) (py_print (loading_line inp) ?w1)"
      using resize_image_Some ri by blast
    have ri': "resize_image lib inp ?w1 = (Some img, w2)" using ri Some by simp
    obtain cm w3 where cm: "create_mask lib (MASK_PATH S) w2 = (cm, w3)"
      by (cases "create_mask lib (MASK_PATH S) w2")
    then have w3: "w3 = after_reads S inp w"
      using create_mask_world [OF cm] w2 by (simp add: after_reads_def)
    have pre: "fst (resize_image lib inp ?w1) = Some img" using ri Some by simp
    have cmf: "fst (create_mask lib (MASK_PATH S) (log (FsRead inp) (py_print (loading_line inp) ?w1))) = cm"
      using cm w2 by simp
    show ?thesis
    proof (cases cm)
      case (Inl e)
      have "process_file_logic S lib inp out w = (Inl e, w3)"
        using cm Inl by (simp add: process_file_logic_def ex' ri')
      with assms have "r = Inl e" "w' = after_reads S inp w" using w3 by simp_all
      then show ?thesis using ex pre cmf Inl by (intro mask_error [of img e]) simp_all
    next
      case (Inr m)
      have cm': "create_mask lib (MASK_PATH S) w2 = (Inr m, w3)" using cm Inr by simp
      have cmf': "fst (create_mask lib (MASK_PATH S) (log (FsRead inp) (py_print (loading_line inp) ?w1))) = Inr m"
        using cmf Inr by simp
      show ?thesis
      proof (cases "inpaint_image lib img m")
        case (Inl e)
        have "process_file_logic S lib inp out w = (Inl e, w3)"
          using Inl by (simp add: process_file_logic_def ex' ri' cm')
        with assms have "r = Inl e" "w' = after_reads S inp w" using w3 by simp_all
        then show ?thesis using ex pre cmf' Inl by (intro inpaint_error [of img m e]) simp_all
      next
        case res: (Inr res)
        let ?w4 = "py_print (saving_line out) (after_reads S inp w)"
        show ?thesis
        proof (cases "cv2_cvtColor res COLOR_BGR2RGB")
          case (Inl e)
          have "process_file_logic S lib inp out w = (Inl e, ?w4)"
            using Inl by (simp add: process_file_logic_def ex' ri' cm' res w3)
          with assms have "r = Inl e" "w' = ?w4" by simp_all
          then show ?thesis using ex pre cmf' res Inl
            by (intro convert_error [of img m res e]) simp_all
        next
          case rgb: (Inr rgb)
          show ?thesis
          proof (cases "Image_fromarray rgb")
            case (Inl e)
            have "process_file_logic S lib inp out w = (Inl e, ?w4)"
              using Inl by (simp add: process_file_logic_def ex' ri' cm' res rgb w3)
            with assms have "r = Inl e" "w' = ?w4" by simp_all
            then show ?thesis using ex pre cmf' res rgb Inl
              by (intro convert_error [of img m res e]) simp_all
          next
            case pic: (Inr pic)
            obtain sv w5 where sv: "Image_save lib pic out 95 ?w4 = (sv, w5)"
              by (cases "Image_save lib pic out 95 ?w4")
            show ?thesis
            proof (cases sv)
              case (Inl e)
              have "process_file_logic S lib inp out w = (Inl e, w5)"
                using Inl sv by (simp add: process_file_logic_def ex' ri' cm' res rgb pic w3)
              with assms have "r = Inl e" "w' = w5" by simp_all
              then show ?thesis using ex pre cmf' res rgb pic sv Inl
                by (intro save_error [of img m res rgb pic e]) simp_all
            next
              case u: (Inr u)
              obtain fmt bytes where s: "lib_registered_extension lib (lower (splitext_ext out)) = Some fmt"
                "lib_encode lib fmt 95 pic = Inr bytes" "is_dir ?w4 (parent (resolve out))"
                "\<not> is_dir ?w4 (resolve out)"
                "w5 = (log (FsWrite out) ?w4)\<lparr>files := (files ?w4)(resolve out \<mapsto> bytes)\<rparr>"
                using Image_save_Inr sv u by blast
              have d: "is_dir ?w4 = is_dir w"
                by (rule is_dir_cong) (simp add: after_reads_def)
              have f: "files ?w4 = files w" by (simp add: after_reads_def)
              have "process_file_logic S lib inp out w = (Inr (), py_print (done_line out) w5)"
                using u sv by (simp add: process_file_logic_def ex' ri' cm' res rgb pic w3)
              with assms have "r = Inr ()" "w' = py_print (done_line out) w5" by simp_all
              then show ?thesis using ex pre cmf' res rgb pic s d f
                by (intro saved [of img m res rgb pic fmt bytes]) simp_all
            qed
          qed
        qed
      qed
    qed
  qed
qed

section \<open>Paths and printed lines\<close>

lemma Image_open_fst_cong:
  "files w' = files w \<Longrightarrow> dirs w' = dirs w \<Longrightarrow> fst (Image_open lib p w') = fst (Image_open lib p w)"
  by (simp add: Image_open_def Let_def is_dir_def split: option.splits)

lemma create_mask_fst_cong:
  assumes "files w' = files w" "dirs w' = dirs w"
  shows "fst (create_mask lib p w') = fst (create_mask lib p w)"
  using Image_open_fst_cong [OF assms, of lib p]
  by (cases "Image_open lib p w'"; cases "Image_open lib p w")
     (auto simp: create_mask_def Let_def split: sum.splits)

lemma resize_image_body_fst_cong:
  assumes "files w' = files w" "dirs w' = dirs w"
  shows "fst (resize_image_body lib p w') = fst (resize_image_body lib p w)"
  using Image_open_fst_cong [OF assms, of lib p]
  by (cases "Image_open lib p w'"; cases "Image_open lib p w")
     (auto simp: resize_image_body_def Let_def split: sum.splits)

lemma resize_image_fst_cong:
  assumes "files w' = files w" "dirs w' = dirs w"
  shows "fst (resize_image lib p w') = fst (resize_image lib p w)"
proof -
  have "fst (resize_image_body lib p (py_print (loading_line p) w')) =
        fst (resize_image_body lib p (py_print (loading_line p) w))"
    by (rule resize_image_body_fst_cong) (simp_all add: assms)
  then show ?thesis
    by (cases "resize_image_body lib p (py_print (loading_line p) w')";
        cases "resize_image_body lib p (py_print (loading_line p) w)")
       (auto simp: resize_image_def split: sum.splits)
qed

lemma os_path_exists_fst_cong:
  "files w' = files w \<Longrightarrow> dirs w' = dirs w \<Longrightarrow> fst (os_path_exists p w') = fst (os_path_exists p w)"
  by (simp add: os_path_exists_def is_dir_def is_file_def)

lemma basename_no_slash: "CHR ''/'' \<notin> set (basename p)"
  unfolding basename_def using set_takeWhileD by fastforce

lemma basename_append_slash: "CHR ''/'' \<notin> set f \<Longrightarrow> basename (a @ CHR ''/'' # f) = f"
proof -
  assume "CHR ''/'' \<notin> set f"
  then have "takeWhile (\<lambda>c. c \<noteq> CHR ''/'') (rev f @ CHR ''/'' # rev a) = rev f"
    by (induction f rule: rev_induct) auto
  then show ?thesis by (simp add: basename_def)
qed

lemma basename_plain:
  assumes "CHR ''/'' \<notin> set f"
  shows "basename f = f"
proof -
  have "takeWhile (\<lambda>c. c \<noteq> CHR ''/'') (rev f) = rev f"
    using assms by (auto simp: takeWhile_eq_all_conv)
  then show ?thesis unfolding basename_def by (simp only: rev_rev_ident)
qed

lemma basename_join:
  assumes "CHR ''/'' \<notin> set f"
  shows "basename (os_path_join d f) = f"
proof -
  have ns: "\<not> startswith f ''/''"
    using assms by (cases f) (auto simp: startswith_def)
  show ?thesis
  proof (cases "d = []")
    case True
    then show ?thesis using ns assms by (simp add: os_path_join_def basename_plain)
  next
    case False
    show ?thesis
    proof (cases "endswith d ''/''")
      case True
      then obtain pre where "d = pre @ ''/''" unfolding endswith_iff by blast
      then show ?thesis using ns True assms by (simp add: os_path_join_def basename_append_slash)
    next
      case e: False
      then show ?thesis using ns False assms by (simp add: os_path_join_def basename_append_slash)
    qed
  qed
qed

lemma basename_join_basename: "basename (os_path_join d (basename p)) = basename p"
  by (rule basename_join) (rule basename_no_slash)

lemma not_done [simp]:
  "\<not> is_done (Stdout (critical_line p))" "\<not> is_done (Stdout (loading_line p))"
  "\<not> is_done (Stdout (error_reading_line e))" "\<not> is_done (Stdout (saving_line p))"
  "\<not> is_done (Stdout (detected_line p))" "\<not> is_done (Stdout (failed_line p e))"
  "\<not> is_done (FsExists p)" "\<not> is_done (FsRead p)" "\<not> is_done (FsWrite p)" "\<not> is_done (Slept n)"
  "is_done (Stdout (done_line p))"
  by (simp_all add: is_done_def startswith_def check_mark_def critical_line_def loading_line_def
      error_reading_line_def saving_line_def detected_line_def failed_line_def done_line_def)

lemma new_effects_append [simp]: "trace w' = trace w @ t \<Longrightarrow> new_effects w w' = t"
  by (simp add: new_effects_def)

lemma after_reads_simps [simp]:
  "files (after_reads S inp w) = files w" "dirs (after_reads S inp w) = dirs w"
  "trace (after_reads S inp w) =
     trace w @ [FsExists (MASK_PATH S), Stdout (loading_line inp), FsRead inp, FsRead (MASK_PATH S)]"
  by (simp_all add: after_reads_def)

section \<open>Early returns, errors and the grace period\<close>

lemma process_file_logic_trace:
  "\<exists>t. trace (snd (process_file_logic S lib inp out w)) = trace w @ t"
proof -
  obtain r w' where p: "process_file_logic S lib inp out w = (r, w')"
    by (cases "process_file_logic S lib inp out w")
  then have "\<exists>t. trace w' = trace w @ t"
  proof (cases rule: process_file_logic_cases)
    case (save_error e img m res rgb pic)
    then show ?thesis using Image_save_Inl [OF save_error(7)] by auto
  qed simp_all
  with p show ?thesis by simp
qed

lemma process_file_logic_dirs [simp]:
  "dirs (snd (process_file_logic S lib inp out w)) = dirs w"
proof -
  obtain r w' where p: "process_file_logic S lib inp out w = (r, w')"
    by (cases "process_file_logic S lib inp out w")
  then have "dirs w' = dirs w"
  proof (cases rule: process_file_logic_cases)
    case (save_error e img m res rgb pic)
    then show ?thesis using Image_save_Inl [OF save_error(7)] by auto
  qed simp_all
  with p show ?thesis by simp
qed

text \<open>
  Claim C10. When the mask asset does not exist, or \<open>resize_image\<close> returns \<open>None\<close>,
  \<open>process_file_logic\<close> returns normally, no file is opened for writing, and the
  files and directories are as before.
\<close>

theorem process_file_logic_early_return:
  assumes "\<not> fst (os_path_exists (MASK_PATH S) w) \<or> fst (resize_image lib input_path w) = None"
  shows "fst (process_file_logic S lib input_path output_path w) = Inr () \<and>
         files (snd (process_file_logic S lib input_path output_path w)) = files w \<and>
         dirs (snd (process_file_logic S lib input_path output_path w)) = dirs w \<and>
         FsWrite output_path \<notin>
           set (new_effects w (snd (process_file_logic S lib input_path output_path w)))"
proof -
  obtain r w' where p: "process_file_logic S lib input_path output_path w = (r, w')"
    by (cases "process_file_logic S lib input_path output_path w")
  have rs: "fst (resize_image lib input_path (log (FsExists (MASK_PATH S)) w)) =
            fst (resize_image lib input_path w)"
    by (rule resize_image_fst_cong) simp_all
  from p have "r = Inr () \<and> files w' = files w \<and> dirs w' = dirs w \<and>
               FsWrite output_path \<notin> set (new_effects w w')"
    using assms rs by (cases rule: process_file_logic_cases) auto
  with p show ?thesis by simp
qed

lemma on_created_fst [simp]: "fst (on_created S lib ev w) = Inr ()"
  by (simp add: on_created_def Let_def split: prod.splits sum.splits)

text \<open>
  Claim C6. When the mask asset does not exist, the main program exits with code 1
  after its two lines of explanation, whatever events would have followed: the watcher
  is not started. The same absence during a run makes \<open>process_file_logic\<close> print one
  line and return; the handler returns normally and the watcher goes on.
\<close>

theorem mask_missing_fatal_only_at_startup:
  assumes "\<not> fst (os_path_exists (MASK_PATH S) w)"
  shows "main S lib steps w =
           (Exited 1, py_print place_mask_line
                        (py_print (not_found_line S) (log (FsExists (MASK_PATH S)) w))) \<and>
         process_file_logic S lib input_path output_path w =
           (Inr (), py_print (critical_line (MASK_PATH S)) (log (FsExists (MASK_PATH S)) w)) \<and>
         fst (on_created S lib ev w) = Inr () \<and>
         run_watcher S lib (Created ev # rest) w =
           run_watcher S lib rest (snd (on_created S lib ev w))"
proof -
  have e: "os_path_exists (MASK_PATH S) w = (False, log (FsExists (MASK_PATH S)) w)"
    using assms by (simp add: prod_eq_iff)
  have "run_watcher S lib (Created ev # rest) w =
        run_watcher S lib rest (snd (on_created S lib ev w))"
    using on_created_fst [of S lib ev w]
    by (cases "on_created S lib ev w") (simp del: on_created_fst)
  then show ?thesis
    by (simp add: main_def process_file_logic_def e)
qed

text \<open>
  Claim C8. For the creation of a file with an accepted extension, the first effect of
  the handler is the sleep of one second; everything else, the reads of the files
  among it, comes after.
\<close>

theorem on_created_sleeps_first:
  assumes "\<not> is_directory ev" and "extension_allowed (basename (src_path ev))"
  shows "\<exists>rest. trace (snd (on_created S lib ev w)) =
           trace w @ Slept 1 # Stdout (detected_line (basename (src_path ev))) # rest"
proof -
  let ?f = "basename (src_path ev)"
  let ?w2 = "py_print (detected_line ?f) (time_sleep 1 w)"
  let ?p = "process_file_logic S lib (src_path ev) (os_path_join (OUTPUT_DIR S) ?f) ?w2"
  obtain t where t: "trace (snd ?p) = trace ?w2 @ t"
    using process_file_logic_trace by blast
  have q: "has_image_suffix ?f" using assms(2) by (simp add: has_image_suffix_iff)
  have "trace (snd (on_created S lib ev w)) = trace w @ Slept 1 # Stdout (detected_line ?f) # t
      \<or> (\<exists>e. trace (snd (on_created S lib ev w)) =
            trace w @ Slept 1 # Stdout (detected_line ?f) # (t @ [Stdout (failed_line ?f e)]))"
    using t assms(1) q
    by (cases ?p) (auto simp: on_created_def Let_def split: sum.splits)
  then show ?thesis by blast
qed

section \<open>Saving the result\<close>

lemma shape_3: "shape a = [r, c, 3] \<Longrightarrow> rows a = r \<and> cols a = c \<and> depth a = Some 3"
  by (auto simp: shape_def split: option.splits)

lemma shape_2: "shape a = [r, c] \<Longrightarrow> rows a = r \<and> cols a = c \<and> depth a = None"
  by (auto simp: shape_def split: option.splits)

lemma cv2_dilate_dims [simp]:
  "rows (cv2_dilate m k 2) = rows m" "cols (cv2_dilate m k 2) = cols m"
  "depth (cv2_dilate m k 2) = depth m"
  by (simp_all add: cv2_dilate_2)

lemma inpaint_image_ok:
  assumes "depth a = Some 3" "depth m = None" "rows m = rows a" "cols m = cols a"
  shows "inpaint_image lib a m =
         Inr (a\<lparr>elem := lib_inpaint_fill lib INPAINT_NS 15 a (cv2_dilate m (np_ones 3 3) 2)\<rparr>)"
  using assms by (simp add: inpaint_image_def cv2_inpaint_def Let_def)

lemma resize_image_ok:
  assumes "files w (resolve p) = Some bytes" "\<not> is_dir w (resolve p)" "lib_decode lib bytes = Inr img"
  shows "\<exists>a. resize_image lib p w = (Some a, log (FsRead p) (py_print (loading_line p) w)) \<and>
             rows a = 720 \<and> cols a = 1280 \<and> depth a = Some 3"
proof -
  let ?w = "py_print (loading_line p) w"
  have op: "Image_open lib p ?w = (Inr img, log (FsRead p) ?w)"
    using assms by (simp add: Image_open_def Let_def is_dir_def)
  show ?thesis
    unfolding resize_image_def resize_image_body_value [OF op] by simp
qed

lemma create_mask_ok:
  assumes "files w (resolve p) = Some bytes" "\<not> is_dir w (resolve p)" "lib_decode lib bytes = Inr img"
  shows "\<exists>m. create_mask lib p w = (Inr m, log (FsRead p) w) \<and>
             rows m = 720 \<and> cols m = 1280 \<and> depth m = None"
proof -
  have op: "Image_open lib p w = (Inr img, log (FsRead p) w)"
    using assms by (simp add: Image_open_def Let_def)
  show ?thesis
    unfolding create_mask_value [OF op] by simp
qed

lemma process_file_logic_saves:
  assumes mask: "files w (resolve (MASK_PATH S)) = Some mb" "\<not> is_dir w (resolve (MASK_PATH S))"
      "lib_decode lib mb = Inr mimg"
    and inp: "files w (resolve inp) = Some ib" "\<not> is_dir w (resolve inp)" "lib_decode lib ib = Inr img"
    and fmt: "lib_registered_extension lib (lower (splitext_ext out)) = Some fmt"
    and enc: "\<forall>pic. \<exists>bytes. lib_encode lib fmt 95 pic = Inr bytes"
    and dir: "is_dir w (parent (resolve out))" "\<not> is_dir w (resolve out)"
  shows "\<exists>pic bytes. lib_encode lib fmt 95 pic = Inr bytes \<and>
         process_file_logic S lib inp out w =
           (Inr (), py_print (done_line out)
              ((log (FsWrite out) (py_print (saving_line out) (after_reads S inp w)))
                 \<lparr>files := (files w)(resolve out \<mapsto> bytes)\<rparr>))"
proof -
  let ?w1 = "log (FsExists (MASK_PATH S)) w"
  let ?w2 = "log (FsRead inp) (py_print (loading_line inp) ?w1)"
  let ?w4 = "py_print (saving_line out) (after_reads S inp w)"
  have ex: "os_path_exists (MASK_PATH S) w = (True, ?w1)"
    using mask by (simp add: os_path_exists_def is_file_def)
  obtain a where a: "resize_image lib inp ?w1 = (Some a, ?w2)"
      "rows a = 720" "cols a = 1280" "depth a = Some 3"
    using resize_image_ok [of ?w1 inp ib lib img] inp by (auto simp: is_dir_def)
  obtain m where m: "create_mask lib (MASK_PATH S) ?w2 = (Inr m, after_reads S inp w)"
      "rows m = 720" "cols m = 1280" "depth m = None"
    using create_mask_ok [of ?w2 "MASK_PATH S" mb lib mimg] mask
    by (auto simp: is_dir_def after_reads_def)
  define res where "res = a\<lparr>elem := lib_inpaint_fill lib INPAINT_NS 15 a (cv2_dilate m (np_ones 3 3) 2)\<rparr>"
  have ip: "inpaint_image lib a m = Inr res"
    unfolding res_def by (rule inpaint_image_ok) (simp_all add: a m)
  obtain rgb where rgb: "cv2_cvtColor res COLOR_BGR2RGB = Inr rgb" "depth rgb = Some 3"
    by (simp add: cv2_cvtColor_def res_def a)
  obtain pic where pic: "Image_fromarray rgb = Inr pic"
    by (simp add: Image_fromarray_def rgb Let_def)
  obtain bytes where b: "lib_encode lib fmt 95 pic = Inr bytes" using enc by blast
  have d: "is_dir ?w4 = is_dir w" by (rule is_dir_cong) simp
  have sv: "Image_save lib pic out 95 ?w4 =
            (Inr (), (log (FsWrite out) ?w4)\<lparr>files := (files w)(resolve out \<mapsto> bytes)\<rparr>)"
    using fmt b dir by (simp add: Image_save_def Let_def d)
  have "process_file_logic S lib inp out w =
           (Inr (), py_print (done_line out)
              ((log (FsWrite out) ?w4)\<lparr>files := (files w)(resolve out \<mapsto> bytes)\<rparr>))"
    by (simp add: process_file_logic_def ex a m ip rgb pic sv)
  with b show ?thesis by blast
qed











section \<open>Order of the steps and the output directory\<close>

lemma list_ex_done_append [simp]:
  "list_ex is_done (xs @ ys) \<longleftrightarrow> list_ex is_done xs \<or> list_ex is_done ys"
  by (auto simp: list_ex_iff)

lemma process_file_logic_done:
  assumes "process_file_logic S lib inp out w = (r, w')"
    and "list_ex is_done (new_effects w w')"
  shows "\<exists>img m res rgb pic fmt bytes.
     fst (resize_image lib inp w) = Some img \<and>
     fst (create_mask lib (MASK_PATH S) w) = Inr m \<and>
     inpaint_image lib img m = Inr res \<and>
     cv2_cvtColor res COLOR_BGR2RGB = Inr rgb \<and>
     Image_fromarray rgb = Inr pic \<and>
     lib_registered_extension lib (lower (splitext_ext out)) = Some fmt \<and>
     lib_encode lib fmt 95 pic = Inr bytes \<and>
     r = Inr () \<and>
     files w' = (files w)(resolve out \<mapsto> bytes) \<and> dirs w' = dirs w \<and>
     trace w' = trace w @
       [FsExists (MASK_PATH S), Stdout (loading_line inp), FsRead inp, FsRead (MASK_PATH S),
        Stdout (saving_line out), FsWrite out, Stdout (done_line out)]"
  using assms(1)
proof (cases rule: process_file_logic_cases)
  case missing
  then show ?thesis using assms(2) by (simp add: new_effects_def)
next
  case (unreadable e)
  then show ?thesis using assms(2) by (simp add: new_effects_def)
next
  case (mask_error e img)
  then show ?thesis using assms(2) by (simp add: new_effects_def)
next
  case (inpaint_error e img m)
  then show ?thesis using assms(2) by (simp add: new_effects_def)
next
  case (convert_error e img m res)
  then show ?thesis using assms(2) by (simp add: new_effects_def)
next
  case (save_error e img m res rgb pic)
  then show ?thesis using assms(2) Image_save_Inl [OF save_error(7)]
    by (auto simp: new_effects_def)
next
  case (saved img m res rgb pic fmt bytes)
  have 1: "fst (resize_image lib inp w) = Some img"
    using saved(2) resize_image_fst_cong [of "log (FsExists (MASK_PATH S)) w" w lib inp] by simp
  have 2: "fst (create_mask lib (MASK_PATH S) w) = Inr m"
    using saved(3)
      create_mask_fst_cong [of "log (FsRead inp) (py_print (loading_line inp) (log (FsExists (MASK_PATH S)) w))" w lib "MASK_PATH S"]
    by simp
  show ?thesis
    using 1 2 saved by simp
qed

text \<open>
  Claim C3. A run started by the handler that reports \<open>DONE\<close> has resized the input,
  built the mask, inpainted, exchanged blue and red again and saved, in this order: the
  effects after the grace period are the existence test of the mask, the read of the
  input, the read of the mask and the write of the output. The bytes written are those
  of the encoder at quality 95, and the output path has the base name of the input.
\<close>

theorem pipeline_order_and_output_name:
  assumes "list_ex is_done (new_effects w (snd (on_created S lib ev w)))"
  shows "\<exists>img m res rgb pic fmt bytes.
     basename (os_path_join (OUTPUT_DIR S) (basename (src_path ev))) = basename (src_path ev) \<and>
     fst (resize_image lib (src_path ev) w) = Some img \<and>
     fst (create_mask lib (MASK_PATH S) w) = Inr m \<and>
     inpaint_image lib img m = Inr res \<and>
     cv2_cvtColor res COLOR_BGR2RGB = Inr rgb \<and>
     Image_fromarray rgb = Inr pic \<and>
     lib_registered_extension lib
       (lower (splitext_ext (os_path_join (OUTPUT_DIR S) (basename (src_path ev))))) = Some fmt \<and>
     lib_encode lib fmt 95 pic = Inr bytes \<and>
     files (snd (on_created S lib ev w)) =
       (files w)(resolve (os_path_join (OUTPUT_DIR S) (basename (src_path ev))) \<mapsto> bytes) \<and>
     new_effects w (snd (on_created S lib ev w)) =
       [Slept 1, Stdout (detected_line (basename (src_path ev))),
        FsExists (MASK_PATH S), Stdout (loading_line (src_path ev)), FsRead (src_path ev),
        FsRead (MASK_PATH S),
        Stdout (saving_line (os_path_join (OUTPUT_DIR S) (basename (src_path ev)))),
        FsWrite (os_path_join (OUTPUT_DIR S) (basename (src_path ev))),
        Stdout (done_line (os_path_join (OUTPUT_DIR S) (basename (src_path ev))))]"
proof -
  let ?f = "basename (src_path ev)"
  let ?out = "os_path_join (OUTPUT_DIR S) ?f"
  let ?w2 = "py_print (detected_line ?f) (time_sleep 1 w)"
  have q: "\<not> is_directory ev \<and> has_image_suffix ?f"
    using assms by (auto simp: on_created_def Let_def new_effects_def split: if_splits)
  obtain r w3 where p: "process_file_logic S lib (src_path ev) ?out ?w2 = (r, w3)"
    by (cases "process_file_logic S lib (src_path ev) ?out ?w2")
  obtain t where t: "trace w3 = trace ?w2 @ t"
    using process_file_logic_trace [of S lib "src_path ev" ?out ?w2] p by auto
  have oc: "snd (on_created S lib ev w) =
            (case r of Inr u \<Rightarrow> w3 | Inl e \<Rightarrow> py_print (failed_line ?f e) w3)"
    using q p by (simp add: on_created_def Let_def split: sum.splits)
  have d: "list_ex is_done (new_effects ?w2 w3)"
    using assms t unfolding oc by (cases r) (auto simp: new_effects_def)
  obtain img m res rgb pic fmt bytes where h:
     "fst (resize_image lib (src_path ev) ?w2) = Some img"
     "fst (create_mask lib (MASK_PATH S) ?w2) = Inr m"
     "inpaint_image lib img m = Inr res"
     "cv2_cvtColor res COLOR_BGR2RGB = Inr rgb"
     "Image_fromarray rgb = Inr pic"
     "lib_registered_extension lib (lower (splitext_ext ?out)) = Some fmt"
     "lib_encode lib fmt 95 pic = Inr bytes"
     "r = Inr ()"
     "files w3 = (files ?w2)(resolve ?out \<mapsto> bytes)"
     "trace w3 = trace ?w2 @
       [FsExists (MASK_PATH S), Stdout (loading_line (src_path ev)), FsRead (src_path ev),
        FsRead (MASK_PATH S), Stdout (saving_line ?out), FsWrite ?out, Stdout (done_line ?out)]"
    using process_file_logic_done [OF p d] by blast
  have 1: "fst (resize_image lib (src_path ev) w) = Some img"
    using h(1) resize_image_fst_cong [of ?w2 w lib "src_path ev"] by simp
  have 2: "fst (create_mask lib (MASK_PATH S) w) = Inr m"
    using h(2) create_mask_fst_cong [of ?w2 w lib "MASK_PATH S"] by simp
  have 3: "snd (on_created S lib ev w) = w3" using oc h(8) by simp
  have 4: "new_effects w w3 =
       [Slept 1, Stdout (detected_line ?f),
        FsExists (MASK_PATH S), Stdout (loading_line (src_path ev)), FsRead (src_path ev),
        FsRead (MASK_PATH S), Stdout (saving_line ?out), FsWrite ?out, Stdout (done_line ?out)]"
    using h(10) by (simp add: new_effects_def)
  show ?thesis
    unfolding 3 using 1 2 4 h basename_join_basename [of "OUTPUT_DIR S" "src_path ev"]
    by auto
qed


section \<open>Where each step can raise\<close>

lemma os_path_exists_at:
  assumes "fst (os_path_exists p w)" "files w' = files w" "dirs w' = dirs w"
  shows "os_path_exists p w' = (True, log (FsExists p) w')"
  using assms os_path_exists_fst_cong [OF assms(2,3), of p] by (simp add: prod_eq_iff)

lemma resize_image_raises_at:
  assumes "fst (resize_image_body lib p w) = Inl e" "files w' = files w" "dirs w' = dirs w"
  shows "resize_image lib p w' =
         (None, py_print (error_reading_line e) (log (FsRead p) (py_print (loading_line p) w')))"
proof -
  let ?v = "py_print (loading_line p) w'"
  have "fst (resize_image_body lib p ?v) = Inl e"
    using assms(1) resize_image_body_fst_cong [of ?v w lib p] assms(2,3) by simp
  then have "resize_image_body lib p ?v = (Inl e, log (FsRead p) ?v)"
    by (simp add: prod_eq_iff)
  then show ?thesis by (simp add: resize_image_def)
qed

lemma resize_image_returns_at:
  assumes "fst (resize_image lib p w) = Some img" "files w' = files w" "dirs w' = dirs w"
  shows "resize_image lib p w' = (Some img, log (FsRead p) (py_print (loading_line p) w'))"
proof -
  obtain v where v: "resize_image lib p w' = (Some img, v)"
    using assms(1) resize_image_fst_cong [OF assms(2,3), of lib p]
    by (cases "resize_image lib p w'") simp
  then show ?thesis using resize_image_Some [OF v] by simp
qed

lemma create_mask_at:
  assumes "fst (create_mask lib p w) = r" "files w' = files w" "dirs w' = dirs w"
  shows "create_mask lib p w' = (r, log (FsRead p) w')"
  using assms(1) create_mask_fst_cong [OF assms(2,3), of lib p] by (simp add: prod_eq_iff)

lemma Image_save_fst_cong:
  "dirs w' = dirs w \<Longrightarrow> fst (Image_save lib img p q w') = fst (Image_save lib img p q w)"
  by (simp add: Image_save_def Let_def is_dir_def split: option.splits sum.splits)

lemma resize_image_shape:
  assumes "fst (resize_image lib p w) = Some a"
  shows "rows a = 720 \<and> cols a = 1280 \<and> depth a = Some 3"
proof -
  let ?v = "py_print (loading_line p) w"
  obtain r v where o: "Image_open lib p ?v = (r, v)" by (cases "Image_open lib p ?v")
  show ?thesis
  proof (cases r)
    case (Inl e)
    then have "resize_image_body lib p ?v = (Inl e, v)"
      using o by (simp add: resize_image_body_def)
    then show ?thesis using assms by (simp add: resize_image_def)
  next
    case (Inr img)
    then have "Image_open lib p ?v = (Inr img, v)" using o by simp
    then show ?thesis
      using assms unfolding resize_image_def by (auto simp: resize_image_body_value)
  qed
qed

lemma create_mask_shape:
  assumes "fst (create_mask lib p w) = Inr m"
  shows "rows m = 720 \<and> cols m = 1280 \<and> depth m = None"
proof -
  obtain r v where o: "Image_open lib p w = (r, v)" by (cases "Image_open lib p w")
  show ?thesis
  proof (cases r)
    case (Inl e)
    then show ?thesis using o assms by (simp add: create_mask_def)
  next
    case (Inr img)
    then have "Image_open lib p w = (Inr img, v)" using o by simp
    then show ?thesis using assms by (auto simp: create_mask_value)
  qed
qed

lemma pipeline_reaches_save:
  assumes "fst (resize_image lib p w) = Some img" "fst (create_mask lib q w) = Inr m"
  shows "\<exists>res rgb pic. inpaint_image lib img m = Inr res \<and>
           cv2_cvtColor res COLOR_BGR2RGB = Inr rgb \<and> Image_fromarray rgb = Inr pic"
proof -
  note a = resize_image_shape [OF assms(1)]
  note b = create_mask_shape [OF assms(2)]
  define res where "res = img\<lparr>elem := lib_inpaint_fill lib INPAINT_NS 15 img (cv2_dilate m (np_ones 3 3) 2)\<rparr>"
  have 1: "inpaint_image lib img m = Inr res"
    unfolding res_def by (rule inpaint_image_ok) (simp_all add: a b)
  obtain rgb where 2: "cv2_cvtColor res COLOR_BGR2RGB = Inr rgb" "depth rgb = Some 3"
    by (simp add: cv2_cvtColor_def res_def a)
  obtain pic where 3: "Image_fromarray rgb = Inr pic"
    by (simp add: Image_fromarray_def 2 Let_def)
  show ?thesis using 1 2 3 by blast
qed

lemma process_file_logic_resize_raises:
  assumes "fst (os_path_exists (MASK_PATH S) w)" "fst (resize_image_body lib inp w) = Inl e"
  shows "process_file_logic S lib inp out w =
         (Inr (), py_print (error_reading_line e)
                    (log (FsRead inp) (py_print (loading_line inp) (log (FsExists (MASK_PATH S)) w))))"
proof -
  let ?w1 = "log (FsExists (MASK_PATH S)) w"
  have ex: "os_path_exists (MASK_PATH S) w = (True, ?w1)"
    by (rule os_path_exists_at [OF assms(1)]) simp_all
  have ri: "resize_image lib inp ?w1 =
            (None, py_print (error_reading_line e) (log (FsRead inp) (py_print (loading_line inp) ?w1)))"
    by (rule resize_image_raises_at [OF assms(2)]) simp_all
  show ?thesis by (simp add: process_file_logic_def ex ri)
qed

lemma process_file_logic_mask_raises:
  assumes "fst (os_path_exists (MASK_PATH S) w)" "fst (resize_image lib inp w) = Some img"
    and "fst (create_mask lib (MASK_PATH S) w) = Inl e"
  shows "process_file_logic S lib inp out w = (Inl e, after_reads S inp w)"
proof -
  let ?w1 = "log (FsExists (MASK_PATH S)) w"
  let ?w2 = "log (FsRead inp) (py_print (loading_line inp) ?w1)"
  have ex: "os_path_exists (MASK_PATH S) w = (True, ?w1)"
    by (rule os_path_exists_at [OF assms(1)]) simp_all
  have ri: "resize_image lib inp ?w1 = (Some img, ?w2)"
    by (rule resize_image_returns_at [OF assms(2)]) simp_all
  have cm: "create_mask lib (MASK_PATH S) ?w2 = (Inl e, after_reads S inp w)"
    unfolding after_reads_def by (rule create_mask_at [OF assms(3)]) simp_all
  show ?thesis by (simp add: process_file_logic_def ex ri cm)
qed

lemma process_file_logic_save_raises:
  assumes "fst (os_path_exists (MASK_PATH S) w)" "fst (resize_image lib inp w) = Some img"
    and "fst (create_mask lib (MASK_PATH S) w) = Inr m"
    and "inpaint_image lib img m = Inr res" "cv2_cvtColor res COLOR_BGR2RGB = Inr rgb"
    and "Image_fromarray rgb = Inr pic"
    and "fst (Image_save lib pic out 95 w) = Inl e"
  shows "\<exists>t w5. (t = [] \<or> t = [FsWrite out]) \<and>
           process_file_logic S lib inp out w = (Inl e, w5) \<and>
           trace w5 = trace (after_reads S inp w) @ [Stdout (saving_line out)] @ t"
proof -
  let ?w1 = "log (FsExists (MASK_PATH S)) w"
  let ?w2 = "log (FsRead inp) (py_print (loading_line inp) ?w1)"
  let ?w4 = "py_print (saving_line out) (after_reads S inp w)"
  have ex: "os_path_exists (MASK_PATH S) w = (True, ?w1)"
    by (rule os_path_exists_at [OF assms(1)]) simp_all
  have ri: "resize_image lib inp ?w1 = (Some img, ?w2)"
    by (rule resize_image_returns_at [OF assms(2)]) simp_all
  have cm: "create_mask lib (MASK_PATH S) ?w2 = (Inr m, after_reads S inp w)"
    unfolding after_reads_def by (rule create_mask_at [OF assms(3)]) simp_all
  have "fst (Image_save lib pic out 95 ?w4) = Inl e"
    using assms(7) Image_save_fst_cong [of ?w4 w lib pic out 95] by simp
  then obtain w5 where sv: "Image_save lib pic out 95 ?w4 = (Inl e, w5)"
    by (cases "Image_save lib pic out 95 ?w4") simp
  have p: "process_file_logic S lib inp out w = (Inl e, w5)"
    by (simp add: process_file_logic_def ex ri cm assms(4,5,6) sv)
  have "trace w5 = trace ?w4 \<or> trace w5 = trace ?w4 @ [FsWrite out]"
    using Image_save_Inl [OF sv] by blast
  then show ?thesis
  proof
    assume "trace w5 = trace ?w4"
    then show ?thesis using p by (intro exI [of _ "[]"] exI [of _ w5]) simp
  next
    assume "trace w5 = trace ?w4 @ [FsWrite out]"
    then show ?thesis using p by (intro exI [of _ "[FsWrite out]"] exI [of _ w5]) simp
  qed
qed

section \<open>The handler and the exceptions\<close>

lemma on_created_accepted:
  assumes "\<not> is_directory ev" "has_image_suffix (basename (src_path ev))"
    and "process_file_logic S lib (src_path ev) (output_path_of S ev)
           (py_print (detected_line (basename (src_path ev))) (time_sleep 1 w)) = (r, w3)"
  shows "on_created S lib ev w =
         (Inr (), case r of Inr u \<Rightarrow> w3
                  | Inl e \<Rightarrow> py_print (failed_line (basename (src_path ev)) e) w3)"
  using assms by (simp add: on_created_def Let_def output_path_of_def split: sum.splits)

lemma prelude_trace:
  "trace (log (FsRead (src_path ev))
            (py_print (loading_line (src_path ev))
               (log (FsExists (MASK_PATH S))
                  (py_print (detected_line (basename (src_path ev))) (time_sleep 1 w))))) =
   trace w @ prelude S ev"
  by (simp add: prelude_def)

text \<open>
  Claim C5, as amended. No exception leaves the handler, whatever the event, and the
  watcher goes on with the events that follow. For an accepted file, with the mask
  asset in place: an exception raised while the input is opened and resized is caught
  inside \<open>resize_image\<close>, printed after \<open>Error reading image\<close>, and ends the run with
  nothing else done; an exception raised while the mask is built leaves
  \<open>process_file_logic\<close> and is printed by the handler together with the name of the
  file; on the arrays that the two steps return, the inpainting and the conversions do
  not raise; an exception raised by the save is printed by the handler together with
  the name of the file. In each case the effects of the handler are exactly those
  listed.
\<close>

theorem on_created_contains_exceptions:
  "fst (on_created S lib ev w) = Inr () \<and>
   run_watcher S lib (Created ev # rest) w = run_watcher S lib rest (snd (on_created S lib ev w)) \<and>
   (\<forall>e w3. \<not> is_directory ev \<and> has_image_suffix (basename (src_path ev)) \<and>
      process_file_logic S lib (src_path ev) (output_path_of S ev)
        (py_print (detected_line (basename (src_path ev))) (time_sleep 1 w)) = (Inl e, w3) \<longrightarrow>
      snd (on_created S lib ev w) = py_print (failed_line (basename (src_path ev)) e) w3) \<and>
   (\<not> is_directory ev \<and> has_image_suffix (basename (src_path ev)) \<and>
    fst (os_path_exists (MASK_PATH S) w) \<longrightarrow>
      (\<forall>e. fst (resize_image_body lib (src_path ev) w) = Inl e \<longrightarrow>
         new_effects w (snd (on_created S lib ev w)) =
           prelude S ev @ [Stdout (error_reading_line e)] \<and>
         files (snd (on_created S lib ev w)) = files w) \<and>
      (\<forall>img e. fst (resize_image lib (src_path ev) w) = Some img \<and>
         fst (create_mask lib (MASK_PATH S) w) = Inl e \<longrightarrow>
         new_effects w (snd (on_created S lib ev w)) =
           prelude S ev @ [FsRead (MASK_PATH S), Stdout (failed_line (basename (src_path ev)) e)] \<and>
         files (snd (on_created S lib ev w)) = files w) \<and>
      (\<forall>img m. fst (resize_image lib (src_path ev) w) = Some img \<and>
         fst (create_mask lib (MASK_PATH S) w) = Inr m \<longrightarrow>
         (\<exists>res rgb pic. inpaint_image lib img m = Inr res \<and>
            cv2_cvtColor res COLOR_BGR2RGB = Inr rgb \<and> Image_fromarray rgb = Inr pic \<and>
            (\<forall>e. fst (Image_save lib pic (output_path_of S ev) 95 w) = Inl e \<longrightarrow>
               (\<exists>t. (t = [] \<or> t = [FsWrite (output_path_of S ev)]) \<and>
                  new_effects w (snd (on_created S lib ev w)) =
                    prelude S ev @
                    [FsRead (MASK_PATH S), Stdout (saving_line (output_path_of S ev))] @ t @
                    [Stdout (failed_line (basename (src_path ev)) e)])))))"
  (is "?c1 \<and> ?c2 \<and> ?c3 \<and> (?Q \<longrightarrow> ?R1 \<and> ?R2 \<and> ?R3)")
proof -
  let ?f = "basename (src_path ev)"
  let ?out = "output_path_of S ev"
  let ?w2 = "py_print (detected_line ?f) (time_sleep 1 w)"
  have 1: "fst (on_created S lib ev w) = Inr ()" by simp
  have 2: "run_watcher S lib (Created ev # rest) w =
           run_watcher S lib rest (snd (on_created S lib ev w))"
    using on_created_fst [of S lib ev w]
    by (cases "on_created S lib ev w") (simp del: on_created_fst)
  have 3: "\<forall>e w3. \<not> is_directory ev \<and> has_image_suffix ?f \<and>
      process_file_logic S lib (src_path ev) ?out ?w2 = (Inl e, w3) \<longrightarrow>
      snd (on_created S lib ev w) = py_print (failed_line ?f e) w3"
    by (auto simp: on_created_accepted)
  have 4: "new_effects w (snd (on_created S lib ev w)) =
             prelude S ev @ [Stdout (error_reading_line e)] \<and>
           files (snd (on_created S lib ev w)) = files w"
    if q: "\<not> is_directory ev" "has_image_suffix ?f" "fst (os_path_exists (MASK_PATH S) w)"
      and h: "fst (resize_image_body lib (src_path ev) w) = Inl e" for e
  proof -
    have ex: "fst (os_path_exists (MASK_PATH S) ?w2)"
      using q(3) os_path_exists_fst_cong [of ?w2 w "MASK_PATH S"] by simp
    have rb: "fst (resize_image_body lib (src_path ev) ?w2) = Inl e"
      using h resize_image_body_fst_cong [of ?w2 w lib "src_path ev"] by simp
    show ?thesis
      unfolding on_created_accepted [OF q(1,2) process_file_logic_resize_raises [OF ex rb]]
      by (simp add: new_effects_def prelude_def)
  qed
  have 5: "new_effects w (snd (on_created S lib ev w)) =
             prelude S ev @ [FsRead (MASK_PATH S), Stdout (failed_line ?f e)] \<and>
           files (snd (on_created S lib ev w)) = files w"
    if q: "\<not> is_directory ev" "has_image_suffix ?f" "fst (os_path_exists (MASK_PATH S) w)"
      and h: "fst (resize_image lib (src_path ev) w) = Some img"
        "fst (create_mask lib (MASK_PATH S) w) = Inl e" for img e
  proof -
    have ex: "fst (os_path_exists (MASK_PATH S) ?w2)"
      using q(3) os_path_exists_fst_cong [of ?w2 w "MASK_PATH S"] by simp
    have ri: "fst (resize_image lib (src_path ev) ?w2) = Some img"
      using h(1) resize_image_fst_cong [of ?w2 w lib "src_path ev"] by simp
    have cm: "fst (create_mask lib (MASK_PATH S) ?w2) = Inl e"
      using h(2) create_mask_fst_cong [of ?w2 w lib "MASK_PATH S"] by simp
    show ?thesis
      unfolding on_created_accepted [OF q(1,2) process_file_logic_mask_raises [OF ex ri cm]]
      by (simp add: new_effects_def prelude_def)
  qed
  have 6: "\<exists>res rgb pic. inpaint_image lib img m = Inr res \<and>
            cv2_cvtColor res COLOR_BGR2RGB = Inr rgb \<and> Image_fromarray rgb = Inr pic \<and>
            (\<forall>e. fst (Image_save lib pic ?out 95 w) = Inl e \<longrightarrow>
               (\<exists>t. (t = [] \<or> t = [FsWrite ?out]) \<and>
                  new_effects w (snd (on_created S lib ev w)) =
                    prelude S ev @ [FsRead (MASK_PATH S), Stdout (saving_line ?out)] @ t @
                    [Stdout (failed_line ?f e)]))"
    if q: "\<not> is_directory ev" "has_image_suffix ?f" "fst (os_path_exists (MASK_PATH S) w)"
      and h: "fst (resize_image lib (src_path ev) w) = Some img"
        "fst (create_mask lib (MASK_PATH S) w) = Inr m" for img m
  proof -
    obtain res rgb pic where s: "inpaint_image lib img m = Inr res"
        "cv2_cvtColor res COLOR_BGR2RGB = Inr rgb" "Image_fromarray rgb = Inr pic"
      using pipeline_reaches_save [OF h] by blast
    have ex: "fst (os_path_exists (MASK_PATH S) ?w2)"
      using q(3) os_path_exists_fst_cong [of ?w2 w "MASK_PATH S"] by simp
    have ri: "fst (resize_image lib (src_path ev) ?w2) = Some img"
      using h(1) resize_image_fst_cong [of ?w2 w lib "src_path ev"] by simp
    have cm: "fst (create_mask lib (MASK_PATH S) ?w2) = Inr m"
      using h(2) create_mask_fst_cong [of ?w2 w lib "MASK_PATH S"] by simp
    have "\<exists>t. (t = [] \<or> t = [FsWrite ?out]) \<and>
                  new_effects w (snd (on_created S lib ev w)) =
                    prelude S ev @ [FsRead (MASK_PATH S), Stdout (saving_line ?out)] @ t @
                    [Stdout (failed_line ?f e)]"
      if e: "fst (Image_save lib pic ?out 95 w) = Inl e" for e
    proof -
      have sv: "fst (Image_save lib pic ?out 95 ?w2) = Inl e"
        using e Image_save_fst_cong [of ?w2 w lib pic ?out 95] by simp
      obtain t w5 where t: "t = [] \<or> t = [FsWrite ?out]"
          "process_file_logic S lib (src_path ev) ?out ?w2 = (Inl e, w5)"
          "trace w5 = trace (after_reads S (src_path ev) ?w2) @ [Stdout (saving_line ?out)] @ t"
        using process_file_logic_save_raises [OF ex ri cm s sv] by blast
      have "new_effects w (snd (on_created S lib ev w)) =
              prelude S ev @ [FsRead (MASK_PATH S), Stdout (saving_line ?out)] @ t @
              [Stdout (failed_line ?f e)]"
        unfolding on_created_accepted [OF q(1,2) t(2)]
        by (simp add: new_effects_def prelude_def t(3))
      with t(1) show ?thesis by blast
    qed
    with s show ?thesis by blast
  qed
  have r1: ?R1 if Q: ?Q
  proof (intro allI impI)
    fix e assume h: "fst (resize_image_body lib (src_path ev) w) = Inl e"
    show "new_effects w (snd (on_created S lib ev w)) =
             prelude S ev @ [Stdout (error_reading_line e)] \<and>
           files (snd (on_created S lib ev w)) = files w"
      by (rule 4 [OF Q [THEN conjunct1] Q [THEN conjunct2, THEN conjunct1]
                 Q [THEN conjunct2, THEN conjunct2] h])
  qed
  have r2: ?R2 if Q: ?Q
  proof (intro allI impI)
    fix img e
    assume h: "fst (resize_image lib (src_path ev) w) = Some img \<and>
               fst (create_mask lib (MASK_PATH S) w) = Inl e"
    show "new_effects w (snd (on_created S lib ev w)) =
             prelude S ev @ [FsRead (MASK_PATH S), Stdout (failed_line ?f e)] \<and>
           files (snd (on_created S lib ev w)) = files w"
      by (rule 5 [OF Q [THEN conjunct1] Q [THEN conjunct2, THEN conjunct1]
                 Q [THEN conjunct2, THEN conjunct2] h [THEN conjunct1] h [THEN conjunct2]])
  qed
  have r3: ?R3 if Q: ?Q
  proof (intro allI impI)
    fix img m
    assume h: "fst (resize_image lib (src_path ev) w) = Some img \<and>
               fst (create_mask lib (MASK_PATH S) w) = Inr m"
    show "\<exists>res rgb pic. inpaint_image lib img m = Inr res \<and>
            cv2_cvtColor res COLOR_BGR2RGB = Inr rgb \<and> Image_fromarray rgb = Inr pic \<and>
            (\<forall>e. fst (Image_save lib pic ?out 95 w) = Inl e \<longrightarrow>
               (\<exists>t. (t = [] \<or> t = [FsWrite ?out]) \<and>
                  new_effects w (snd (on_created S lib ev w)) =
                    prelude S ev @ [FsRead (MASK_PATH S), Stdout (saving_line ?out)] @ t @
                    [Stdout (failed_line ?f e)]))"
      by (rule 6 [OF Q [THEN conjunct1] Q [THEN conjunct2, THEN conjunct1]
                 Q [THEN conjunct2, THEN conjunct2] h [THEN conjunct1] h [THEN conjunct2]])
  qed
  have "?Q \<longrightarrow> ?R1 \<and> ?R2 \<and> ?R3"
  proof (intro impI conjI)
    assume Q: ?Q
    show ?R1 by (rule r1 [OF Q])
    show ?R2 by (rule r2 [OF Q])
    show ?R3 by (rule r3 [OF Q])
  qed
  with 1 2 3 show ?thesis by (intro conjI)
qed

section \<open>Runs of the example\<close>

subsection \<open>Facts of the example\<close>

lemma example_paths:
  "MASK_PATH example_settings = ''/app/mask.png''"
  "resolve ''/app/mask.png'' = [''/'', ''app'', ''mask.png'']"
  "resolve ''in/photo.jpg'' = [''in'', ''photo.jpg'']"
  "resolve ''out/photo.jpg'' = [''out'', ''photo.jpg'']"
  "resolve ''out'' = [''out'']"
  "resolve ''in'' = [''in'']"
  "basename ''in/photo.jpg'' = ''photo.jpg''"
  "basename ''in/notes.txt'' = ''notes.txt''"
  "os_path_join ''out'' ''photo.jpg'' = ''out/photo.jpg''"
  "lower (splitext_ext ''out/photo.jpg'') = ''.jpg''"
  by (simp_all add: MASK_PATH_def example_settings_def os_path_join_def startswith_def
      endswith_def resolve_def basename_def splitext_ext_def lower_def lower_char_def)

lemma example_names:
  "has_image_suffix ''photo.jpg''" "\<not> has_image_suffix ''notes.txt''"
  by (simp_all add: has_image_suffix_def image_suffixes_def endswith_def lower_def lower_char_def)

lemma example_library_simps:
  "lib_decode example_library ''mask'' = Inr white_square"
  "lib_decode example_library ''photo'' = Inr example_photo"
  "lib_decode example_library ''garbage'' =
     Inl (OSError ''image file is truncated (0 bytes not processed)'')"
  "lib_registered_extension example_library ''.jpg'' = Some ''JPEG''"
  "lib_encode example_library fmt q pic = Inr fmt"
  "lib_resample example_library filt white_square sz = DataL (\<lambda>x y. 255)"
  "lib_resample example_library filt example_photo sz = DataRGBA (\<lambda>x y. ((10, 20, 30), 40))"
  by (simp_all add: example_library_def nearest_def white_square_def example_photo_def Let_def)

lemma example_world_simps:
  "files example_world [''/'', ''app'', ''mask.png''] = Some ''mask''"
  "files example_world [''in'', ''photo.jpg''] = Some ''photo''"
  "files example_world [''out'', ''photo.jpg''] = None"
  "\<not> is_dir example_world [''/'', ''app'', ''mask.png'']"
  "\<not> is_dir example_world [''in'', ''photo.jpg'']"
  "\<not> is_dir example_world [''out'', ''photo.jpg'']"
  "is_dir example_world [''out'']"
  "trace example_world = []"
  by (simp_all add: example_world_def is_dir_def)

lemma world_without_out_simps:
  "files world_without_out = files example_world"
  "\<not> is_dir world_without_out [''/'', ''app'', ''mask.png'']"
  "\<not> is_dir world_without_out [''in'', ''photo.jpg'']"
  "\<not> is_dir world_without_out [''out'', ''photo.jpg'']"
  "\<not> is_dir world_without_out [''out'']"
  "[''out''] \<notin> dirs world_without_out"
  "trace world_without_out = []"
  by (simp_all add: world_without_out_def example_world_def is_dir_def)

lemma world_without_mask_simps:
  "files world_without_mask [''/'', ''app'', ''mask.png''] = None"
  "\<not> is_dir world_without_mask [''/'', ''app'', ''mask.png'']"
  by (simp_all add: world_without_mask_def example_world_def is_dir_def)

lemma world_with_bad_mask_simps:
  "files world_with_bad_mask [''/'', ''app'', ''mask.png''] = Some ''garbage''"
  "files world_with_bad_mask [''in'', ''photo.jpg''] = Some ''photo''"
  "\<not> is_dir world_with_bad_mask [''/'', ''app'', ''mask.png'']"
  "\<not> is_dir world_with_bad_mask [''in'', ''photo.jpg'']"
  by (simp_all add: world_with_bad_mask_def example_world_def is_dir_def)

lemma world_with_bad_photo_simps:
  "files world_with_bad_photo [''/'', ''app'', ''mask.png''] = Some ''mask''"
  "files world_with_bad_photo [''in'', ''photo.jpg''] = Some ''garbage''"
  "\<not> is_dir world_with_bad_photo [''/'', ''app'', ''mask.png'']"
  "\<not> is_dir world_with_bad_photo [''in'', ''photo.jpg'']"
  by (simp_all add: world_with_bad_photo_def example_world_def is_dir_def)

lemma example_run_saves:
  assumes "files w = files example_world" "dirs w = dirs example_world"
  shows "process_file_logic example_settings example_library ''in/photo.jpg'' ''out/photo.jpg'' w =
      (Inr (), py_print (done_line ''out/photo.jpg'')
         ((log (FsWrite ''out/photo.jpg'')
            (py_print (saving_line ''out/photo.jpg'') (after_reads example_settings ''in/photo.jpg'' w)))
            \<lparr>files := (files w)(resolve ''out/photo.jpg'' \<mapsto> ''JPEG'')\<rparr>))"
proof -
  have d: "is_dir w = is_dir example_world" by (rule is_dir_cong) (rule assms)
  have "\<exists>pic bytes. lib_encode example_library ''JPEG'' 95 pic = Inr bytes \<and>
      process_file_logic example_settings example_library ''in/photo.jpg'' ''out/photo.jpg'' w =
      (Inr (), py_print (done_line ''out/photo.jpg'')
         ((log (FsWrite ''out/photo.jpg'')
            (py_print (saving_line ''out/photo.jpg'') (after_reads example_settings ''in/photo.jpg'' w)))
            \<lparr>files := (files w)(resolve ''out/photo.jpg'' \<mapsto> bytes)\<rparr>))"
    by (rule process_file_logic_saves [where mb = "''mask''" and mimg = white_square
          and ib = "''photo''" and img = example_photo])
       (simp_all add: assms d example_paths example_world_simps example_library_simps parent_def)
  then show ?thesis by (auto simp: example_library_simps)
qed


section \<open>The handler and the dilated mask\<close>

text \<open>
  Claim C7. For the creation of a directory, and for a file whose extension, lowered,
  is not one of png, jpg, jpeg, bmp and tiff, the handler returns at once: nothing is
  printed, read or written.
\<close>

theorem on_created_ignores:
  assumes "is_directory ev \<or> \<not> extension_allowed (basename (src_path ev))"
  shows "on_created S lib ev w = (Inr (), w)"
  using assms by (auto simp: on_created_def Let_def has_image_suffix_iff)

theorem on_created_ignores_witness:
  "(is_directory text_event \<or> \<not> extension_allowed (basename (src_path text_event))) \<and>
   on_created example_settings example_library text_event example_world = (Inr (), example_world)"
proof -
  have h: "is_directory text_event \<or> \<not> extension_allowed (basename (src_path text_event))"
    by (simp add: text_event_def example_paths example_names has_image_suffix_iff [symmetric])
  show ?thesis using h on_created_ignores [OF h] by simp
qed

text \<open>
  Claim C4, as amended. \<open>inpaint_image\<close> hands to \<open>cv2.inpaint\<close>, with radius 15 and the
  Navier-Stokes flag, the mask dilated twice by the 3 by 3 kernel of ones: an element of
  the dilated mask is nonzero exactly when the mask has a nonzero element at most two
  rows and two columns away. The nonzero region of the dilated mask contains that of the
  mask, and is strictly larger when the mask has both a nonzero and a zero element.
\<close>

theorem inpaint_image_dilates_mask:
  "inpaint_image lib img m = cv2_inpaint lib img (cv2_dilate m (np_ones 3 3) 2) 15 INPAINT_NS \<and>
   (\<forall>y<rows m. \<forall>x<cols m. \<forall>c.
      (elem (cv2_dilate m (np_ones 3 3) 2) y x c \<noteq> 0) =
      (\<exists>y'<rows m. \<exists>x'<cols m. near 2 y y' \<and> near 2 x x' \<and> elem m y' x' c \<noteq> 0)) \<and>
   nonzero m \<subseteq> nonzero (cv2_dilate m (np_ones 3 3) 2) \<and>
   (nonzero m \<noteq> {} \<and> (\<exists>y<rows m. \<exists>x<cols m. elem m y x 0 = 0) \<longrightarrow>
      nonzero m \<subset> nonzero (cv2_dilate m (np_ones 3 3) 2))"
proof -
  have a: "inpaint_image lib img m = cv2_inpaint lib img (cv2_dilate m (np_ones 3 3) 2) 15 INPAINT_NS"
    by (simp add: inpaint_image_def Let_def)
  have b: "\<forall>y<rows m. \<forall>x<cols m. \<forall>c.
      (elem (cv2_dilate m (np_ones 3 3) 2) y x c \<noteq> 0) =
      (\<exists>y'<rows m. \<exists>x'<cols m. near 2 y y' \<and> near 2 x x' \<and> elem m y' x' c \<noteq> 0)"
    using dilate_twice_nonzero [of _ m] by blast
  show ?thesis
    using a b nonzero_dilate_superset [of m] nonzero_dilate_strict [of m] by blast
qed

theorem inpaint_image_dilates_mask_witness:
  "nonzero dot_mask \<noteq> {} \<and> (\<exists>y<rows dot_mask. \<exists>x<cols dot_mask. elem dot_mask y x 0 = 0) \<and>
   nonzero dot_mask \<subset> nonzero (cv2_dilate dot_mask (np_ones 3 3) 2) \<and>
   elem (cv2_dilate dot_mask (np_ones 3 3) 2) 652 1212 0 \<noteq> 0"
proof -
  have 1: "nonzero dot_mask \<noteq> {}"
  proof -
    have "(650, 1210) \<in> nonzero dot_mask" by (simp add: nonzero_def dot_mask_def)
    then show ?thesis by blast
  qed
  have 2: "\<exists>y<rows dot_mask. \<exists>x<cols dot_mask. elem dot_mask y x 0 = 0"
    by (intro exI [of _ 0] conjI) (simp_all add: dot_mask_def)
  have 3: "\<exists>y'<rows dot_mask. \<exists>x'<cols dot_mask. near 2 652 y' \<and> near 2 1212 x' \<and> elem dot_mask y' x' 0 \<noteq> 0"
    by (intro exI [of _ 650] exI [of _ 1210] conjI) (simp_all add: dot_mask_def near_def)
  have 4: "(652::nat) < rows dot_mask" "(1212::nat) < cols dot_mask" by (simp_all add: dot_mask_def)
  show ?thesis
    using inpaint_image_dilates_mask [of example_library black_mask dot_mask] 1 2 3 4 by blast
qed

text \<open>
  The mask of an asset that is dark everywhere is zero everywhere, and so is its
  dilation: the nonzero region has not grown.
\<close>

theorem dilated_black_mask_not_larger:
  "\<not> nonzero black_mask \<subset> nonzero (cv2_dilate black_mask (np_ones 3 3) 2)"
proof -
  have z: "elem black_mask y x c = 0" for y x c by (simp add: black_mask_def)
  have "elem (cv2_dilate black_mask (np_ones 3 3) 2) y x 0 = 0"
    if "y < rows black_mask" "x < cols black_mask" for y x
    using dilate_twice_nonzero [OF that, of 0] z by simp
  then have "nonzero (cv2_dilate black_mask (np_ones 3 3) 2) = {}"
    by (auto simp: nonzero_def)
  then show ?thesis by simp
qed

theorem create_mask_binary_in_box_witness:
  "files example_world (resolve ''/app/mask.png'') = Some ''mask'' \<and>
   \<not> is_dir example_world (resolve ''/app/mask.png'') \<and>
   lib_decode example_library ''mask'' = Inr white_square \<and>
   (\<exists>m. create_mask example_library ''/app/mask.png'' example_world =
           (Inr m, log (FsRead ''/app/mask.png'') example_world) \<and>
        shape m = [720, 1280] \<and> in_mask_box 1210 650 \<and> elem m 650 1210 0 = 255 \<and>
        \<not> in_mask_box 0 0 \<and> elem m 0 0 0 = 0)"
proof -
  have h: "files example_world (resolve ''/app/mask.png'') = Some ''mask''"
    "\<not> is_dir example_world (resolve ''/app/mask.png'')"
    "lib_decode example_library ''mask'' = Inr white_square"
    by (simp_all add: example_paths example_world_simps example_library_simps)
  obtain m where m: "create_mask example_library ''/app/mask.png'' example_world =
           (Inr m, log (FsRead ''/app/mask.png'') example_world)"
      "shape m = [720, 1280]"
      "\<forall>y x c. elem m y x c \<noteq> 0 \<longrightarrow> in_mask_box x y"
      "\<forall>y x c. in_mask_box x y \<longrightarrow>
         elem m y x c =
           (if 127 < grey_of example_library (lib_resample example_library LANCZOS white_square (45, 45))
                       (int x - 1205) (int y - 645)
            then 255 else 0)"
    using create_mask_binary_in_box [OF h] by blast
  have b: "in_mask_box 1210 650" "\<not> in_mask_box 0 0" by (simp_all add: in_mask_box_def)
  have "elem m 650 1210 0 = 255"
    using m(4) b by (simp add: example_library_simps grey_of_def)
  moreover have "elem m 0 0 0 = 0" using m(3) b by blast
  ultimately show ?thesis using h m b by blast
qed

theorem resize_image_canonical_witness:
  "files example_world (resolve ''in/photo.jpg'') = Some ''photo'' \<and>
   \<not> is_dir example_world (resolve ''in/photo.jpg'') \<and>
   lib_decode example_library ''photo'' = Inr example_photo \<and>
   lib_resample example_library LANCZOS example_photo (1280, 720) =
     DataRGBA (\<lambda>x y. ((10, 20, 30), 40)) \<and>
   (\<exists>a. fst (resize_image example_library ''in/photo.jpg'' example_world) = Some a \<and>
        shape a = [720, 1280, 3] \<and> (elem a 7 9 2, elem a 7 9 1, elem a 7 9 0) = (10, 20, 30))"
proof -
  have h: "files example_world (resolve ''in/photo.jpg'') = Some ''photo''"
    "\<not> is_dir example_world (resolve ''in/photo.jpg'')"
    "lib_decode example_library ''photo'' = Inr example_photo"
    by (simp_all add: example_paths example_world_simps example_library_simps)
  have f: "lib_resample example_library LANCZOS example_photo (1280, 720) =
     DataRGBA (\<lambda>x y. ((10, 20, 30), 40))"
    by (simp add: example_library_simps)
  obtain a where a: "resize_image example_library ''in/photo.jpg'' example_world =
               (Some a, log (FsRead ''in/photo.jpg'')
                  (py_print (loading_line ''in/photo.jpg'') example_world))"
     "shape a = [720, 1280, 3]"
     "\<forall>f y x. lib_resample example_library LANCZOS example_photo (1280, 720) = DataRGBA f \<longrightarrow>
                     (elem a y x 2, elem a y x 1, elem a y x 0) = fst (f (int x) (int y))"
    using resize_image_canonical [OF h] by blast
  have "(elem a 7 9 2, elem a 7 9 1, elem a 7 9 0) = (10, 20, 30)"
    using a(3) f by simp
  then show ?thesis using h f a by simp
qed

section \<open>The claims on the example\<close>

lemma example_event_simps:
  "\<not> is_directory example_event" "src_path example_event = ''in/photo.jpg''"
  "OUTPUT_DIR example_settings = ''out''"
  by (simp_all add: example_event_def example_settings_def)

lemma example_event_allowed: "extension_allowed (basename (src_path example_event))"
  by (simp add: example_event_simps example_paths example_names has_image_suffix_iff [symmetric])

lemma on_created_example:
  "on_created example_settings example_library example_event example_world =
     (Inr (), py_print (done_line ''out/photo.jpg'')
         ((log (FsWrite ''out/photo.jpg'')
            (py_print (saving_line ''out/photo.jpg'')
               (after_reads example_settings ''in/photo.jpg''
                  (py_print (detected_line ''photo.jpg'') (time_sleep 1 example_world)))))
            \<lparr>files := (files example_world)(resolve ''out/photo.jpg'' \<mapsto> ''JPEG'')\<rparr>))"
  using example_run_saves [of "py_print (detected_line ''photo.jpg'') (time_sleep 1 example_world)"]
  by (simp add: on_created_def Let_def example_event_simps example_paths example_names)

theorem pipeline_order_and_output_name_witness:
  "list_ex is_done (new_effects example_world
      (snd (on_created example_settings example_library example_event example_world))) \<and>
   basename (os_path_join (OUTPUT_DIR example_settings) (basename (src_path example_event))) =
     ''photo.jpg'' \<and>
   files (snd (on_created example_settings example_library example_event example_world))
     [''out'', ''photo.jpg''] = Some ''JPEG'' \<and>
   new_effects example_world
      (snd (on_created example_settings example_library example_event example_world)) =
     [Slept 1, Stdout (detected_line ''photo.jpg''), FsExists ''/app/mask.png'',
      Stdout (loading_line ''in/photo.jpg''), FsRead ''in/photo.jpg'', FsRead ''/app/mask.png'',
      Stdout (saving_line ''out/photo.jpg''), FsWrite ''out/photo.jpg'',
      Stdout (done_line ''out/photo.jpg'')]"
proof -
  have h: "list_ex is_done (new_effects example_world
      (snd (on_created example_settings example_library example_event example_world)))"
    using on_created_example by (auto simp: new_effects_def example_world_simps)
  obtain fmt bytes pic where r:
    "lib_registered_extension example_library
       (lower (splitext_ext (os_path_join (OUTPUT_DIR example_settings)
          (basename (src_path example_event))))) = Some fmt"
    "lib_encode example_library fmt 95 pic = Inr bytes"
    "basename (os_path_join (OUTPUT_DIR example_settings) (basename (src_path example_event))) =
       basename (src_path example_event)"
    "files (snd (on_created example_settings example_library example_event example_world)) =
       (files example_world)(resolve (os_path_join (OUTPUT_DIR example_settings)
          (basename (src_path example_event))) \<mapsto> bytes)"
    "new_effects example_world
      (snd (on_created example_settings example_library example_event example_world)) =
       [Slept 1, Stdout (detected_line (basename (src_path example_event))),
        FsExists (MASK_PATH example_settings), Stdout (loading_line (src_path example_event)),
        FsRead (src_path example_event), FsRead (MASK_PATH example_settings),
        Stdout (saving_line (os_path_join (OUTPUT_DIR example_settings) (basename (src_path example_event)))),
        FsWrite (os_path_join (OUTPUT_DIR example_settings) (basename (src_path example_event))),
        Stdout (done_line (os_path_join (OUTPUT_DIR example_settings) (basename (src_path example_event))))]"
    using pipeline_order_and_output_name [OF h] by blast
  have "fmt = ''JPEG''" "bytes = fmt"
    using r(1,2) by (simp_all add: example_event_simps example_paths example_library_simps)
  then show ?thesis
    using h r(3,4,5) by (simp add: example_event_simps example_paths)
qed

lemma bad_photo_body:
  assumes "files w = files world_with_bad_photo" "dirs w = dirs world_with_bad_photo"
  shows "resize_image_body example_library ''in/photo.jpg'' w =
         (Inl (OSError ''image file is truncated (0 bytes not processed)''),
          log (FsRead ''in/photo.jpg'') w)"
proof -
  have "is_dir w = is_dir world_with_bad_photo" by (rule is_dir_cong) (rule assms)
  then show ?thesis
    by (simp add: resize_image_body_def Image_open_def Let_def example_paths assms
        world_with_bad_photo_simps example_library_simps)
qed

lemma example_mask_exists:
  "fst (os_path_exists (MASK_PATH example_settings) world_with_bad_photo)"
  "fst (os_path_exists (MASK_PATH example_settings) world_with_bad_mask)"
  "fst (os_path_exists (MASK_PATH example_settings) world_without_out)"
  by (simp_all add: os_path_exists_def example_paths is_file_def world_with_bad_photo_simps
      world_with_bad_mask_simps world_without_out_simps example_world_simps)

lemma bad_mask_raises:
  "fst (create_mask example_library (MASK_PATH example_settings) world_with_bad_mask) =
     Inl (OSError ''image file is truncated (0 bytes not processed)'')"
  by (simp add: create_mask_def Image_open_def Let_def example_paths world_with_bad_mask_simps
      example_library_simps)

lemma save_without_out_raises:
  "fst (Image_save example_library pic ''out/photo.jpg'' 95 world_without_out) =
     Inl (FileNotFoundError (errno_text ''[Errno 2] No such file or directory'' ''out/photo.jpg''))"
  by (simp add: Image_save_def Let_def example_paths example_library_simps parent_def
      world_without_out_simps)

theorem on_created_contains_exceptions_witness:
  "fst (on_created example_settings example_library example_event world_without_out) = Inr () \<and>
   run_watcher example_settings example_library [Created example_event, Created text_event]
       world_without_out =
     run_watcher example_settings example_library [Created text_event]
       (snd (on_created example_settings example_library example_event world_without_out)) \<and>
   new_effects world_with_bad_photo
     (snd (on_created example_settings example_library example_event world_with_bad_photo)) =
     prelude example_settings example_event @
     [Stdout (error_reading_line (OSError ''image file is truncated (0 bytes not processed)''))] \<and>
   new_effects world_with_bad_mask
     (snd (on_created example_settings example_library example_event world_with_bad_mask)) =
     prelude example_settings example_event @
     [FsRead ''/app/mask.png'',
      Stdout (failed_line ''photo.jpg'' (OSError ''image file is truncated (0 bytes not processed)''))] \<and>
   (\<exists>t. (t = [] \<or> t = [FsWrite ''out/photo.jpg'']) \<and>
      new_effects world_without_out
        (snd (on_created example_settings example_library example_event world_without_out)) =
        prelude example_settings example_event @
        [FsRead ''/app/mask.png'', Stdout (saving_line ''out/photo.jpg'')] @ t @
        [Stdout (failed_line ''photo.jpg''
           (FileNotFoundError
              (errno_text ''[Errno 2] No such file or directory'' ''out/photo.jpg'')))])"
proof -
  have q: "\<not> is_directory example_event \<and>
           has_image_suffix (basename (src_path example_event))"
    by (simp add: example_event_simps example_paths example_names)
  have o: "output_path_of example_settings example_event = ''out/photo.jpg''"
    by (simp add: output_path_of_def example_event_simps example_paths)
  have n: "basename (src_path example_event) = ''photo.jpg''"
    "src_path example_event = ''in/photo.jpg''"
    by (simp_all add: example_event_simps example_paths)
  note t1 = on_created_contains_exceptions
      [of example_settings example_library example_event world_with_bad_photo "[]"]
  note t2 = on_created_contains_exceptions
      [of example_settings example_library example_event world_with_bad_mask "[]"]
  note t3 = on_created_contains_exceptions
      [of example_settings example_library example_event world_without_out "[Created text_event]"]
  have a: "new_effects world_with_bad_photo
     (snd (on_created example_settings example_library example_event world_with_bad_photo)) =
     prelude example_settings example_event @
     [Stdout (error_reading_line (OSError ''image file is truncated (0 bytes not processed)''))]"
  proof -
    have "fst (resize_image_body example_library (src_path example_event) world_with_bad_photo) =
          Inl (OSError ''image file is truncated (0 bytes not processed)'')"
      using bad_photo_body [of world_with_bad_photo] by (simp add: n)
    then show ?thesis using t1 q example_mask_exists(1) by blast
  qed
  have b: "new_effects world_with_bad_mask
     (snd (on_created example_settings example_library example_event world_with_bad_mask)) =
     prelude example_settings example_event @
     [FsRead ''/app/mask.png'',
      Stdout (failed_line ''photo.jpg'' (OSError ''image file is truncated (0 bytes not processed)''))]"
  proof -
    obtain img where "fst (resize_image example_library (src_path example_event) world_with_bad_mask) = Some img"
      using resize_image_ok [of world_with_bad_mask "''in/photo.jpg''" "''photo''" example_library example_photo]
      by (auto simp: n example_paths world_with_bad_mask_simps example_library_simps)
    then have "new_effects world_with_bad_mask
       (snd (on_created example_settings example_library example_event world_with_bad_mask)) =
       prelude example_settings example_event @
       [FsRead (MASK_PATH example_settings),
        Stdout (failed_line (basename (src_path example_event))
                  (OSError ''image file is truncated (0 bytes not processed)''))]"
      using t2 q example_mask_exists(2) bad_mask_raises by blast
    then show ?thesis by (simp add: n example_paths)
  qed
  have c: "\<exists>t. (t = [] \<or> t = [FsWrite ''out/photo.jpg'']) \<and>
      new_effects world_without_out
        (snd (on_created example_settings example_library example_event world_without_out)) =
        prelude example_settings example_event @
        [FsRead ''/app/mask.png'', Stdout (saving_line ''out/photo.jpg'')] @ t @
        [Stdout (failed_line ''photo.jpg''
           (FileNotFoundError
              (errno_text ''[Errno 2] No such file or directory'' ''out/photo.jpg'')))]"
  proof -
    obtain img where i: "fst (resize_image example_library (src_path example_event) world_without_out) = Some img"
      using resize_image_ok [of world_without_out "''in/photo.jpg''" "''photo''" example_library example_photo]
      by (auto simp: n example_paths world_without_out_simps example_world_simps example_library_simps)
    obtain m where m: "fst (create_mask example_library (MASK_PATH example_settings) world_without_out) = Inr m"
      using create_mask_ok [of world_without_out "''/app/mask.png''" "''mask''" example_library white_square]
      by (auto simp: example_paths world_without_out_simps example_world_simps example_library_simps)
    obtain pic where p: "\<forall>e. fst (Image_save example_library pic
            (output_path_of example_settings example_event) 95 world_without_out) = Inl e \<longrightarrow>
         (\<exists>t. (t = [] \<or> t = [FsWrite (output_path_of example_settings example_event)]) \<and>
            new_effects world_without_out
              (snd (on_created example_settings example_library example_event world_without_out)) =
              prelude example_settings example_event @
              [FsRead (MASK_PATH example_settings),
               Stdout (saving_line (output_path_of example_settings example_event))] @ t @
              [Stdout (failed_line (basename (src_path example_event)) e)])"
      using t3 q example_mask_exists(3) i m by blast
    show ?thesis
      using p save_without_out_raises [of pic] by (simp add: o n example_paths)
  qed
  show ?thesis using t3 a b c by blast
qed

text \<open>
  A photo that is truncated: the exception is raised in the resize step,
  \<open>process_file_logic\<close> returns normally, so that nothing reaches the handler, and the
  only line about the error is the one printed by \<open>resize_image\<close>.
\<close>

theorem resize_error_not_caught_by_handler:
  "fst (resize_image_body example_library ''in/photo.jpg'' world_with_bad_photo) =
     Inl (OSError ''image file is truncated (0 bytes not processed)'') \<and>
   fst (process_file_logic example_settings example_library ''in/photo.jpg'' ''out/photo.jpg''
          (py_print (detected_line ''photo.jpg'') (time_sleep 1 world_with_bad_photo))) = Inr () \<and>
   new_effects world_with_bad_photo
     (snd (on_created example_settings example_library example_event world_with_bad_photo)) =
     [Slept 1, Stdout (detected_line ''photo.jpg''), FsExists ''/app/mask.png'',
      Stdout (loading_line ''in/photo.jpg''), FsRead ''in/photo.jpg'',
      Stdout ''Error reading image: image file is truncated (0 bytes not processed)'']"
proof -
  define w2 where "w2 = py_print (detected_line ''photo.jpg'') (time_sleep 1 world_with_bad_photo)"
  have fd: "files w2 = files world_with_bad_photo" "dirs w2 = dirs world_with_bad_photo"
    by (simp_all add: w2_def)
  have b: "fst (resize_image_body example_library ''in/photo.jpg'' world_with_bad_photo) =
           Inl (OSError ''image file is truncated (0 bytes not processed)'')"
    using bad_photo_body [of world_with_bad_photo] by simp
  have b2: "fst (resize_image_body example_library ''in/photo.jpg'' w2) =
           Inl (OSError ''image file is truncated (0 bytes not processed)'')"
    using bad_photo_body [OF fd] by simp
  have ex: "fst (os_path_exists (MASK_PATH example_settings) w2)"
    using example_mask_exists(1) os_path_exists_fst_cong [OF fd, of "MASK_PATH example_settings"]
    by simp
  have p: "process_file_logic example_settings example_library ''in/photo.jpg'' ''out/photo.jpg'' w2 =
        (Inr (), py_print (error_reading_line (OSError ''image file is truncated (0 bytes not processed)''))
                   (log (FsRead ''in/photo.jpg'') (py_print (loading_line ''in/photo.jpg'')
                      (log (FsExists (MASK_PATH example_settings)) w2))))"
    by (rule process_file_logic_resize_raises [OF ex b2])
  have q: "\<not> is_directory example_event" "has_image_suffix (basename (src_path example_event))"
    by (simp_all add: example_event_simps example_paths example_names)
  have p': "process_file_logic example_settings example_library (src_path example_event)
        (output_path_of example_settings example_event)
        (py_print (detected_line (basename (src_path example_event))) (time_sleep 1 world_with_bad_photo)) =
        (Inr (), py_print (error_reading_line (OSError ''image file is truncated (0 bytes not processed)''))
                   (log (FsRead ''in/photo.jpg'') (py_print (loading_line ''in/photo.jpg'')
                      (log (FsExists (MASK_PATH example_settings)) w2))))"
    using p by (simp add: output_path_of_def example_event_simps example_paths w2_def)
  have "new_effects world_with_bad_photo
     (snd (on_created example_settings example_library example_event world_with_bad_photo)) =
     [Slept 1, Stdout (detected_line ''photo.jpg''), FsExists ''/app/mask.png'',
      Stdout (loading_line ''in/photo.jpg''), FsRead ''in/photo.jpg'',
      Stdout ''Error reading image: image file is truncated (0 bytes not processed)'']"
    unfolding on_created_accepted [OF q p']
    by (simp add: new_effects_def w2_def example_paths error_reading_line_def)
  then show ?thesis using b p by (simp add: w2_def)
qed

theorem mask_missing_fatal_only_at_startup_witness:
  "\<not> fst (os_path_exists (MASK_PATH example_settings) world_without_mask) \<and>
   fst (main example_settings example_library [Created example_event] world_without_mask) = Exited 1 \<and>
   new_effects world_without_mask
     (snd (main example_settings example_library [Created example_event] world_without_mask)) =
     [FsExists ''/app/mask.png'', Stdout (not_found_line example_settings), Stdout place_mask_line] \<and>
   fst (process_file_logic example_settings example_library ''in/photo.jpg'' ''out/photo.jpg''
          world_without_mask) = Inr () \<and>
   files (snd (process_file_logic example_settings example_library ''in/photo.jpg'' ''out/photo.jpg''
          world_without_mask)) = files world_without_mask"
proof -
  have h: "\<not> fst (os_path_exists (MASK_PATH example_settings) world_without_mask)"
    by (simp add: os_path_exists_def example_paths is_file_def world_without_mask_simps)
  show ?thesis
    using h mask_missing_fatal_only_at_startup [OF h, of example_library "[Created example_event]"
        "''in/photo.jpg''" "''out/photo.jpg''" example_event "[]"]
    by (simp add: new_effects_def example_paths)
qed

theorem on_created_sleeps_first_witness:
  "\<not> is_directory example_event \<and> extension_allowed (basename (src_path example_event)) \<and>
   (\<exists>rest. trace (snd (on_created example_settings example_library example_event example_world)) =
      trace example_world @ Slept 1 # Stdout (detected_line (basename (src_path example_event))) # rest)"
proof -
  have h: "\<not> is_directory example_event" "extension_allowed (basename (src_path example_event))"
    by (rule example_event_simps, rule example_event_allowed)
  show ?thesis
    using h on_created_sleeps_first [OF h, of example_settings example_library example_world]
    by blast
qed

theorem process_file_logic_early_return_witness:
  "\<not> fst (os_path_exists (MASK_PATH example_settings) world_without_mask) \<and>
   fst (process_file_logic example_settings example_library ''in/photo.jpg'' ''out/photo.jpg''
          world_without_mask) = Inr () \<and>
   files (snd (process_file_logic example_settings example_library ''in/photo.jpg'' ''out/photo.jpg''
          world_without_mask)) = files world_without_mask \<and>
   fst (resize_image example_library ''in/photo.jpg'' world_with_bad_photo) = None \<and>
   fst (process_file_logic example_settings example_library ''in/photo.jpg'' ''out/photo.jpg''
          world_with_bad_photo) = Inr () \<and>
   files (snd (process_file_logic example_settings example_library ''in/photo.jpg'' ''out/photo.jpg''
          world_with_bad_photo)) = files world_with_bad_photo"
proof -
  have h1: "\<not> fst (os_path_exists (MASK_PATH example_settings) world_without_mask)"
    by (simp add: os_path_exists_def example_paths is_file_def world_without_mask_simps)
  have h2: "fst (resize_image example_library ''in/photo.jpg'' world_with_bad_photo) = None"
    by (simp add: resize_image_def resize_image_body_def Image_open_def Let_def example_paths
        world_with_bad_photo_simps example_library_simps is_dir_def)
  show ?thesis
    using h1 h2
      process_file_logic_early_return [of example_settings world_without_mask example_library
        "''in/photo.jpg''" "''out/photo.jpg''"]
      process_file_logic_early_return [of example_settings world_with_bad_photo example_library
        "''in/photo.jpg''" "''out/photo.jpg''"]
    by blast
qed




end
